theory Spec2Isabelle
  imports Complex_Main
begin

section \<open>Python values\<close>

text \<open>
  The business payload is a \<^verbatim>\<open>Dict[str, Any]\<close> that is written to the store as JSON. Its
  values are the Python values that \<^verbatim>\<open>json.dumps\<close> accepts: the JSON-native ones and tuples,
  which JSON writes as arrays. A dictionary has string keys and is an association list in
  insertion order. Python floats are idealised as rationals: arithmetic on them is exact
  (no rounding to binary64, no NaN or infinity). Not in this type, and so outside every
  statement about payloads: values that \<^verbatim>\<open>json.dumps\<close> refuses (sets, datetimes, objects),
  on which \<^verbatim>\<open>submit_job\<close> raises, dictionary keys that are not strings, and NaN.
\<close>

datatype pyval =
    PNone
  | PBool bool
  | PInt int
  | PFloat rat
  | PStr string
  | PList "pyval list"
  | PTuple "pyval list"
  | PDict "(string \<times> pyval) list"

type_synonym pydict = "(string \<times> pyval) list"

text \<open>The exceptions that the modelled code can raise, each with its message.\<close>

datatype py_exception = TypeError string | ValueError string

fun str_exc :: "py_exception \<Rightarrow> string" where
  "str_exc (TypeError m) = m"
| "str_exc (ValueError m) = m"

definition bind_exc :: "py_exception + 'a \<Rightarrow> ('a \<Rightarrow> py_exception + 'b) \<Rightarrow> py_exception + 'b" where
  "bind_exc m f = (case m of Inl e \<Rightarrow> Inl e | Inr x \<Rightarrow> f x)"

definition sq :: "string \<Rightarrow> string" where
  \<comment> \<open>a string between single quotes, as Python's messages print type names\<close>
  "sq s = [CHR 0x27] @ s @ [CHR 0x27]"

fun type_name :: "pyval \<Rightarrow> string" where
  "type_name PNone = ''NoneType''"
| "type_name (PBool b) = ''bool''"
| "type_name (PInt i) = ''int''"
| "type_name (PFloat f) = ''float''"
| "type_name (PStr s) = ''str''"
| "type_name (PList xs) = ''list''"
| "type_name (PTuple xs) = ''tuple''"
| "type_name (PDict kvs) = ''dict''"

definition dict_get :: "pydict \<Rightarrow> string \<Rightarrow> pyval \<Rightarrow> pyval" where
  \<comment> \<open>\<^verbatim>\<open>d.get(key, default)\<close>\<close>
  "dict_get d k dflt = (case map_of d k of Some v \<Rightarrow> v | None \<Rightarrow> dflt)"

fun py_lt :: "pyval \<Rightarrow> int \<Rightarrow> py_exception + bool" where
  \<comment> \<open>\<^verbatim>\<open>v < n\<close> for an int literal \<open>n\<close>: numbers compare by value (\<^verbatim>\<open>True\<close> is 1), anything
      else raises TypeError\<close>
  "py_lt (PInt i) n = Inr (i < n)"
| "py_lt (PBool b) n = Inr ((if b then 1 else 0) < n)"
| "py_lt (PFloat f) n = Inr (f < of_int n)"
| "py_lt v n = Inl (TypeError (sq ''<'' @ '' not supported between instances of ''
                    @ sq (type_name v) @ '' and '' @ sq ''int''))"

section \<open>The scoring function\<close>

definition score_revenue :: "pyval \<Rightarrow> pyval \<Rightarrow> py_exception + rat" where
  "score_revenue revenue profit =
     bind_exc (py_lt revenue 1000) (\<lambda>b1. if b1 then Inr 20 else
     bind_exc (py_lt revenue 5000) (\<lambda>b2. if b2 then Inr 40 else
     bind_exc (py_lt revenue 15000) (\<lambda>b3. if b3 then Inr 60 else
     bind_exc (py_lt revenue 50000) (\<lambda>b4. if b4 then Inr 80 else Inr 95))))"

definition score_growth :: "pyval \<Rightarrow> py_exception + rat" where
  "score_growth growth_rate =
     bind_exc (py_lt growth_rate 0) (\<lambda>b1. if b1 then Inr 10 else
     bind_exc (py_lt growth_rate 5) (\<lambda>b2. if b2 then Inr 30 else
     bind_exc (py_lt growth_rate 15) (\<lambda>b3. if b3 then Inr 60 else
     bind_exc (py_lt growth_rate 30) (\<lambda>b4. if b4 then Inr 80 else Inr 95))))"

definition industry_multipliers :: "(string \<times> rat) list" where
  "industry_multipliers =
     [(''SaaS'', 12 / 10),
      (''E-commerce'', 11 / 10),
      (''Marketplace'', 115 / 100),
      (''Mobile App'', 1),
      (''Web App'', 1),
      (''Service'', 9 / 10)]"

fun unhashable :: "pyval \<Rightarrow> string option" where
  \<comment> \<open>the type of the first value met that \<^verbatim>\<open>hash\<close> refuses: a list or a dict, also
      inside a tuple\<close>
  "unhashable (PList xs) = Some ''list''"
| "unhashable (PDict kvs) = Some ''dict''"
| "unhashable (PTuple xs) =
     (case filter (\<lambda>r. r \<noteq> None) (map unhashable xs) of [] \<Rightarrow> None | r # rs \<Rightarrow> r)"
| "unhashable v = None"

fun multiplier_get :: "pyval \<Rightarrow> py_exception + rat" where
  \<comment> \<open>\<^verbatim>\<open>industry_multipliers.get(industry, 1.0)\<close>: the keys are strings, so a hashable value
      of another type finds nothing; a list or a dict cannot be hashed (the message is
      CPython's up to 3.13)\<close>
  "multiplier_get (PStr s) =
     Inr (case map_of industry_multipliers s of Some m \<Rightarrow> m | None \<Rightarrow> 1)"
| "multiplier_get (PList xs) = Inl (TypeError (''unhashable type: '' @ sq ''list''))"
| "multiplier_get (PDict kvs) = Inl (TypeError (''unhashable type: '' @ sq ''dict''))"
| "multiplier_get (PTuple xs) =
     (case unhashable (PTuple xs) of
        Some t \<Rightarrow> Inl (TypeError (''unhashable type: '' @ sq t))
      | None \<Rightarrow> Inr 1)"
| "multiplier_get v = Inr 1"

definition score_market :: "pyval \<Rightarrow> pyval \<Rightarrow> py_exception + rat" where
  "score_market market_size industry =
     bind_exc (multiplier_get industry) (\<lambda>multiplier.
     bind_exc (py_lt market_size 100000) (\<lambda>b1. if b1 then Inr (30 * multiplier) else
     bind_exc (py_lt market_size 1000000) (\<lambda>b2. if b2 then Inr (50 * multiplier) else
     bind_exc (py_lt market_size 10000000) (\<lambda>b3. if b3 then Inr (70 * multiplier)
       else Inr (90 * multiplier)))))"

definition score_experience :: "pyval \<Rightarrow> py_exception + rat" where
  "score_experience years_operated =
     bind_exc (py_lt years_operated 1) (\<lambda>b1. if b1 then Inr 30 else
     bind_exc (py_lt years_operated 3) (\<lambda>b2. if b2 then Inr 50 else
     bind_exc (py_lt years_operated 5) (\<lambda>b3. if b3 then Inr 70 else Inr 85)))"

definition generate_reasoning :: "rat \<Rightarrow> rat \<Rightarrow> rat \<Rightarrow> rat \<Rightarrow> pydict \<Rightarrow> string list" where
  "generate_reasoning revenue_score growth_score market_score experience_score business_data =
     (let reasoning = [];
          reasoning = reasoning @
            [if revenue_score \<ge> 80 then ''Strong revenue generation with healthy profitability''
             else if revenue_score \<ge> 60 then ''Moderate revenue with decent profit margins''
             else ''Revenue needs improvement for better investment appeal''];
          reasoning = reasoning @
            [if growth_score \<ge> 80 then ''Excellent growth trajectory indicating market opportunity''
             else if growth_score \<ge> 60 then ''Steady growth with potential for acceleration''
             else ''Growth is limited, may need strategic improvements''];
          reasoning = reasoning @
            [if market_score \<ge> 80 then ''Large addressable market with favorable industry dynamics''
             else if market_score \<ge> 60 then ''Decent market size with reasonable competition''
             else ''Market opportunity may be limited''];
          reasoning = reasoning @
            [if experience_score \<ge> 80 then ''Proven track record with established operations''
             else if experience_score \<ge> 60 then ''Some operational experience with growth potential''
             else ''Newer operation requiring additional validation'']
      in reasoning)"

definition py_round2 :: "rat \<Rightarrow> rat" where
  \<comment> \<open>\<^verbatim>\<open>round(x, 2)\<close> on the exact value: to the nearest hundredth, a tie to the even one\<close>
  "py_round2 x =
     (let y = x * 100; f = \<lfloor>y\<rfloor>; r = y - of_int f
      in (if r < 1 / 2 then of_int f
          else if 1 / 2 < r then of_int (f + 1)
          else if even f then of_int f else of_int (f + 1)) / 100)"

definition score_business :: "pydict \<Rightarrow> py_exception + (rat \<times> string list)" where
  "score_business business_data =
     (let monthly_revenue = dict_get business_data ''monthly_revenue'' (PInt 0);
          monthly_profit = dict_get business_data ''monthly_profit'' (PInt 0);
          growth_rate = dict_get business_data ''growth_rate'' (PInt 0);
          market_size = dict_get business_data ''market_size'' (PInt 0);
          industry = dict_get business_data ''industry'' (PStr ''General'');
          years_operated = dict_get business_data ''years_operated'' (PInt 0)
      in bind_exc (score_revenue monthly_revenue monthly_profit) (\<lambda>revenue_score.
         bind_exc (score_growth growth_rate) (\<lambda>growth_score.
         bind_exc (score_market market_size industry) (\<lambda>market_score.
         bind_exc (score_experience years_operated) (\<lambda>experience_score.
           let overall_score =
                 revenue_score * (3 / 10) + growth_score * (25 / 100)
                 + market_score * (25 / 100) + experience_score * (2 / 10);
               reasoning = generate_reasoning revenue_score growth_score market_score
                             experience_score business_data
           in Inr (py_round2 overall_score, reasoning))))))"


section \<open>Timestamps\<close>

text \<open>
  \<^verbatim>\<open>datetime.utcnow()\<close> returns a naive \<^verbatim>\<open>datetime\<close>; the fields of such an object are
  always in range, which the type \<open>datetime\<close> below keeps. Aware datetimes (with a
  time zone) do not occur in the program and are not modelled.
\<close>

record dt_fields =
  year :: nat
  month :: nat
  day :: nat
  hour :: nat
  minute :: nat
  second :: nat
  microsecond :: nat

definition is_leap :: "nat \<Rightarrow> bool" where
  "is_leap y = (y mod 4 = 0 \<and> (y mod 100 \<noteq> 0 \<or> y mod 400 = 0))"

definition days_in_month :: "nat \<Rightarrow> nat \<Rightarrow> nat" where
  "days_in_month y m =
     (if m = 2 then (if is_leap y then 29 else 28)
      else if m = 4 \<or> m = 6 \<or> m = 9 \<or> m = 11 then 30 else 31)"

definition valid_fields :: "dt_fields \<Rightarrow> bool" where
  "valid_fields f =
     (1 \<le> year f \<and> year f \<le> 9999 \<and> 1 \<le> month f \<and> month f \<le> 12 \<and>
      1 \<le> day f \<and> day f \<le> days_in_month (year f) (month f) \<and>
      hour f < 24 \<and> minute f < 60 \<and> second f < 60 \<and> microsecond f < 1000000)"

typedef datetime = "{f :: dt_fields. valid_fields f}"
  by (rule exI [of _ "\<lparr>year = 1, month = 1, day = 1, hour = 0, minute = 0, second = 0,
                        microsecond = 0\<rparr>"])
     (simp add: valid_fields_def days_in_month_def)

definition digit_char :: "nat \<Rightarrow> char" where
  "digit_char d = char_of (48 + d)"

fun pad :: "nat \<Rightarrow> nat \<Rightarrow> string" where
  \<comment> \<open>the last \<open>k\<close> decimal digits of \<open>n\<close>: \<^verbatim>\<open>"%0kd" % n\<close> when \<open>n < 10 ^ k\<close>\<close>
  "pad 0 n = []"
| "pad (Suc k) n = pad k (n div 10) @ [digit_char (n mod 10)]"

definition isoformat :: "datetime \<Rightarrow> string" where
  \<comment> \<open>\<^verbatim>\<open>YYYY-MM-DDTHH:MM:SS\<close>, followed by \<^verbatim>\<open>.ffffff\<close> when the microsecond is not 0\<close>
  "isoformat d =
     (let f = Rep_datetime d
      in pad 4 (year f) @ ''-'' @ pad 2 (month f) @ ''-'' @ pad 2 (day f) @ ''T''
         @ pad 2 (hour f) @ '':'' @ pad 2 (minute f) @ '':'' @ pad 2 (second f)
         @ (if microsecond f \<noteq> 0 then ''.'' @ pad 6 (microsecond f) else []))"

definition is_digit :: "char \<Rightarrow> bool" where
  "is_digit c = (48 \<le> (of_char c :: nat) \<and> (of_char c :: nat) \<le> 57)"

definition digits :: "nat \<Rightarrow> string \<Rightarrow> (nat \<times> string) option" where
  \<comment> \<open>read exactly \<open>k\<close> decimal digits from the front\<close>
  "digits k s =
     (if k \<le> length s \<and> list_all is_digit (take k s)
      then Some (foldl (\<lambda>a c. 10 * a + (of_char c - 48)) 0 (take k s), drop k s)
      else None)"

definition expect :: "char \<Rightarrow> string \<Rightarrow> string option" where
  "expect c s = (case s of [] \<Rightarrow> None | x # xs \<Rightarrow> if x = c then Some xs else None)"

definition parse_iso :: "string \<Rightarrow> dt_fields option" where
  "parse_iso s =
     Option.bind (digits 4 s) (\<lambda>(y, s).
     Option.bind (expect CHR ''-'' s) (\<lambda>s.
     Option.bind (digits 2 s) (\<lambda>(mo, s).
     Option.bind (expect CHR ''-'' s) (\<lambda>s.
     Option.bind (digits 2 s) (\<lambda>(d, s).
     Option.bind (expect CHR ''T'' s) (\<lambda>s.
     Option.bind (digits 2 s) (\<lambda>(h, s).
     Option.bind (expect CHR '':'' s) (\<lambda>s.
     Option.bind (digits 2 s) (\<lambda>(mi, s).
     Option.bind (expect CHR '':'' s) (\<lambda>s.
     Option.bind (digits 2 s) (\<lambda>(se, s).
     Option.bind
       (if s = [] then Some 0
        else Option.bind (expect CHR ''.'' s) (\<lambda>s.
               case digits 6 s of Some (us, []) \<Rightarrow> Some us | _ \<Rightarrow> None)) (\<lambda>us.
     Some \<lparr>year = y, month = mo, day = d, hour = h, minute = mi, second = se,
           microsecond = us\<rparr>))))))))))))"

definition fromisoformat :: "string \<Rightarrow> py_exception + datetime" where
  \<comment> \<open>\<^verbatim>\<open>datetime.fromisoformat\<close> on the two layouts that \<open>isoformat\<close> writes for a naive
      datetime; any other text, and any field out of range, is a ValueError (newer Pythons
      read further ISO 8601 layouts, among them offsets, which give aware datetimes)\<close>
  "fromisoformat s =
     (case parse_iso s of
        None \<Rightarrow> Inl (ValueError (''Invalid isoformat string: '' @ sq s))
      | Some f \<Rightarrow>
          if valid_fields f then Inr (Abs_datetime f)
          else Inl (ValueError (''Invalid isoformat string: '' @ sq s)))"

definition replace_Z :: "string \<Rightarrow> string" where
  \<comment> \<open>\<^verbatim>\<open>s.replace('Z', '+00:00')\<close>\<close>
  "replace_Z s = concat (map (\<lambda>c. if c = CHR ''Z'' then ''+00:00'' else [c]) s)"

section \<open>Jobs\<close>

record ScoringJob =
  job_id :: string
  business_data :: pydict
  status :: string
  score :: "rat option"
  reasoning :: "string list option"
  error :: "string option"
  created_at :: "datetime option"
  completed_at :: "datetime option"

text \<open>
  \<^verbatim>\<open>__post_init__\<close> runs at the end of every construction. Its arguments \<open>uuid4\<close> and
  \<open>utcnow\<close> are what \<^verbatim>\<open>str(uuid.uuid4())\<close> and \<^verbatim>\<open>datetime.utcnow()\<close> return when
  called there.
\<close>

definition post_init :: "string \<Rightarrow> datetime \<Rightarrow> ScoringJob \<Rightarrow> ScoringJob" where
  "post_init uuid4 utcnow self =
     (let self = (if job_id self = [] then self\<lparr>job_id := uuid4\<rparr> else self);
          self = (if created_at self = None then self\<lparr>created_at := Some utcnow\<rparr> else self)
      in self)"

text \<open>
  The dictionary form of a job: the eight keys of \<^verbatim>\<open>asdict\<close>, the two timestamps as
  ISO 8601 text or \<^verbatim>\<open>None\<close>.
\<close>

record job_dict =
  d_id :: string
  d_business_data :: pydict
  d_status :: string
  d_score :: "rat option"
  d_reasoning :: "string list option"
  d_error :: "string option"
  d_created_at :: "string option"
  d_completed_at :: "string option"

definition to_dict :: "ScoringJob \<Rightarrow> job_dict" where
  "to_dict self =
     \<lparr>d_id = job_id self,
      d_business_data = business_data self,
      d_status = status self,
      d_score = score self,
      d_reasoning = reasoning self,
      d_error = error self,
      d_created_at = (case created_at self of None \<Rightarrow> None | Some t \<Rightarrow> Some (isoformat t)),
      d_completed_at = (case completed_at self of None \<Rightarrow> None | Some t \<Rightarrow> Some (isoformat t))\<rparr>"

definition parse_stamp :: "string option \<Rightarrow> py_exception + datetime option" where
  \<comment> \<open>\<^verbatim>\<open>if key in data and data[key]: data[key] = datetime.fromisoformat(...)\<close>; a missing
      key, \<^verbatim>\<open>None\<close> and the empty string are all left alone and count as no timestamp\<close>
  "parse_stamp v =
     (case v of
        None \<Rightarrow> Inr None
      | Some s \<Rightarrow>
          if s = [] then Inr None
          else bind_exc (fromisoformat (replace_Z s)) (\<lambda>t. Inr (Some t)))"

definition from_dict :: "string \<Rightarrow> datetime \<Rightarrow> job_dict \<Rightarrow> py_exception + ScoringJob" where
  "from_dict uuid4 utcnow data =
     bind_exc (parse_stamp (d_created_at data)) (\<lambda>created.
     bind_exc (parse_stamp (d_completed_at data)) (\<lambda>completed.
       Inr (post_init uuid4 utcnow
              \<lparr>job_id = d_id data,
               business_data = d_business_data data,
               status = d_status data,
               score = d_score data,
               reasoning = d_reasoning data,
               error = d_error data,
               created_at = created,
               completed_at = completed\<rparr>)))"

section \<open>The store and the queue\<close>

text \<open>
  The store keeps the JSON text of a job's dictionary. JSON has arrays only, so a tuple is
  written as an array and read back as a list: \<open>json_value v\<close> is what \<^verbatim>\<open>json.loads\<close> reads
  from the text that \<^verbatim>\<open>json.dumps\<close> writes for \<open>v\<close>. A text is represented by the document
  that \<^verbatim>\<open>json.loads\<close> reads from it. The other fields of a \<open>job_dict\<close> (strings, a number,
  a list of strings, \<^verbatim>\<open>None\<close>) are read back as they were written.
\<close>

fun json_value :: "pyval \<Rightarrow> pyval" where
  "json_value (PTuple xs) = PList (map json_value xs)"
| "json_value (PList xs) = PList (map json_value xs)"
| "json_value (PDict kvs) = PDict (map (map_prod id json_value) kvs)"
| "json_value v = v"

definition json_dict :: "pydict \<Rightarrow> pydict" where
  "json_dict kvs = map (map_prod id json_value) kvs"

datatype json_text = JsonText job_dict

definition json_dumps :: "job_dict \<Rightarrow> json_text" where
  "json_dumps d = JsonText (d\<lparr>d_business_data := json_dict (d_business_data d)\<rparr>)"

fun json_loads :: "json_text \<Rightarrow> job_dict" where
  "json_loads (JsonText d) = d"

text \<open>
  The world of a run: the keys with a time-to-live, the lists, and the history of the
  effects so far (the writes, the pushes, the pops, and each call of the scoring
  function). The store is reliable: its commands do not fail. Redis refuses a SETEX whose
  time-to-live is not positive, so the model describes the program for a positive
  \<^verbatim>\<open>job_timeout\<close> (the default is 300); with another one every write of the program raises
  and nothing is ever stored.
\<close>

datatype event =
    SetEx string int json_text
  | LPush string string
  | BRPop string "string option"
  | Invoke pydict

record world =
  kv :: "string \<rightharpoonup> (int \<times> json_text)"
  redis_lists :: "string \<Rightarrow> string list"
  trace :: "event list"

definition empty_world :: world where
  "empty_world = \<lparr>kv = Map.empty, redis_lists = (\<lambda>k. []), trace = []\<rparr>"

definition setex :: "string \<Rightarrow> int \<Rightarrow> json_text \<Rightarrow> world \<Rightarrow> world" where
  \<comment> \<open>SETEX: the value replaces the old one and its time-to-live starts anew\<close>
  "setex k ttl v w = w\<lparr>kv := (kv w)(k \<mapsto> (ttl, v)), trace := trace w @ [SetEx k ttl v]\<rparr>"

definition redis_get :: "string \<Rightarrow> world \<Rightarrow> json_text option" where
  "redis_get k w = (case kv w k of None \<Rightarrow> None | Some (ttl, v) \<Rightarrow> Some v)"

definition lpush :: "string \<Rightarrow> string \<Rightarrow> world \<Rightarrow> world" where
  \<comment> \<open>LPUSH: the value goes to the head of the list\<close>
  "lpush k v w = w\<lparr>redis_lists := (redis_lists w)(k := v # redis_lists w k), trace := trace w @ [LPush k v]\<rparr>"

definition brpop :: "string \<Rightarrow> int \<Rightarrow> world \<Rightarrow> (string \<times> string) option \<times> world" where
  \<comment> \<open>BRPOP: the value at the tail of the list, with the key; \<^verbatim>\<open>None\<close> when the list is
      still empty after \<open>timeout\<close> seconds\<close>
  "brpop k timeout w =
     (case redis_lists w k of
        [] \<Rightarrow> (None, w\<lparr>trace := trace w @ [BRPop k None]\<rparr>)
      | x # xs \<Rightarrow>
          (Some (k, last (x # xs)),
           w\<lparr>redis_lists := (redis_lists w)(k := butlast (x # xs)),
             trace := trace w @ [BRPop k (Some (last (x # xs)))]\<rparr>))"

definition elapse :: "int \<Rightarrow> world \<Rightarrow> world" where
  \<comment> \<open>\<open>t\<close> seconds pass: a key whose time-to-live runs out is gone\<close>
  "elapse t w =
     w\<lparr>kv := (\<lambda>k. case kv w k of
                    None \<Rightarrow> None
                  | Some (ttl, v) \<Rightarrow> if ttl \<le> t then None else Some (ttl - t, v))\<rparr>"

section \<open>The queued scorer\<close>

record QueuedScorer =
  queue_name :: string
  max_concurrent_jobs :: int
  job_timeout :: int
  retry_attempts :: int
  ai_enabled :: bool
  worker_id :: string

definition job_key :: "string \<Rightarrow> string" where
  "job_key jid = ''job:'' @ jid"

definition queue_key :: "QueuedScorer \<Rightarrow> string" where
  "queue_key self = ''queue:'' @ queue_name self"

definition update_job :: "QueuedScorer \<Rightarrow> ScoringJob \<Rightarrow> world \<Rightarrow> world" where
  "update_job self job w =
     setex (job_key (job_id job)) (job_timeout self * 2) (json_dumps (to_dict job)) w"

text \<open>
  \<open>uid\<close> is the identifier drawn on entry, \<open>payload\<close> the argument \<^verbatim>\<open>business_data\<close>;
  \<open>uuid4\<close> and \<open>utcnow\<close> are the values for \<^verbatim>\<open>__post_init__\<close>. The result is the returned
  id and the new world.
\<close>

definition submit_job ::
  "QueuedScorer \<Rightarrow> string \<Rightarrow> string \<Rightarrow> datetime \<Rightarrow> pydict \<Rightarrow> world \<Rightarrow> string \<times> world" where
  "submit_job self uid uuid4 utcnow payload w =
     (let job = post_init uuid4 utcnow
                  \<lparr>job_id = uid, business_data = payload, status = ''pending'',
                   score = None, reasoning = None, error = None,
                   created_at = None, completed_at = None\<rparr>;
          w = setex (job_key (job_id job)) (job_timeout self * 2) (json_dumps (to_dict job)) w;
          w = lpush (queue_key self) (job_id job) w
      in (job_id job, w))"

definition get_job_status ::
  "string \<Rightarrow> datetime \<Rightarrow> string \<Rightarrow> world \<Rightarrow> py_exception + ScoringJob option" where
  "get_job_status uuid4 utcnow jid w =
     (case redis_get (job_key jid) w of
        None \<Rightarrow> Inr None
      | Some job_data \<Rightarrow>
          bind_exc (from_dict uuid4 utcnow (json_loads job_data)) (\<lambda>job. Inr (Some job)))"

text \<open>
  \<^verbatim>\<open>_process_job\<close>, in three parts: the first two statements of the \<^verbatim>\<open>try\<close> suite, which
  end with the job written as \<^verbatim>\<open>processing\<close>; the rest of the \<^verbatim>\<open>try\<close> suite, which either
  completes or raises; and the \<^verbatim>\<open>except\<close> and \<^verbatim>\<open>finally\<close> clauses around it. The scoring
  function does not touch the store, so while it runs the world is the one that
  \<open>process_job_begin\<close> left.
\<close>

definition process_job_begin :: "QueuedScorer \<Rightarrow> ScoringJob \<Rightarrow> world \<Rightarrow> ScoringJob \<times> world" where
  "process_job_begin self job w =
     (let job = job\<lparr>status := ''processing''\<rparr>
      in (job, update_job self job w))"

definition process_job_try ::
  "QueuedScorer \<Rightarrow> datetime \<Rightarrow> ScoringJob \<Rightarrow> world
     \<Rightarrow> (py_exception \<times> ScoringJob \<times> world) + (ScoringJob \<times> world)" where
  "process_job_try self utcnow job w =
     (let (job, w) = process_job_begin self job w;
          w = w\<lparr>trace := trace w @ [Invoke (business_data job)]\<rparr>
      in case score_business (business_data job) of
           Inl e \<Rightarrow> Inl (e, job, w)
         | Inr (sc, rs) \<Rightarrow>
             Inr (job\<lparr>score := Some sc, reasoning := Some rs, status := ''completed'',
                      completed_at := Some utcnow\<rparr>, w))"

definition process_job ::
  "QueuedScorer \<Rightarrow> datetime \<Rightarrow> ScoringJob \<Rightarrow> world \<Rightarrow> ScoringJob \<times> world" where
  "process_job self utcnow job w =
     (let (job, w) =
            (case process_job_try self utcnow job w of
               Inr (job, w) \<Rightarrow> (job, w)
             | Inl (e, job, w) \<Rightarrow>
                 (job\<lparr>status := ''failed'', error := Some (str_exc e),
                      completed_at := Some utcnow\<rparr>, w))
      in (job, update_job self job w))"

text \<open>
  One turn of the loop of \<^verbatim>\<open>start_worker\<close>. \<open>uuid4\<close> and \<open>utcnow0\<close> serve the construction
  in \<^verbatim>\<open>from_dict\<close>, \<open>utcnow\<close> is the clock when the job ends. An exception of
  \<open>get_job_status\<close> is caught by the loop's \<^verbatim>\<open>except Exception\<close>.
\<close>

definition worker_iteration ::
  "QueuedScorer \<Rightarrow> string \<Rightarrow> datetime \<Rightarrow> datetime \<Rightarrow> world \<Rightarrow> world" where
  "worker_iteration self uuid4 utcnow0 utcnow w =
     (case brpop (queue_key self) 1 w of
        (None, w) \<Rightarrow> w
      | (Some (k, jid), w) \<Rightarrow>
          (case get_job_status uuid4 utcnow0 jid w of
             Inl e \<Rightarrow> w
           | Inr None \<Rightarrow> w
           | Inr (Some job) \<Rightarrow> snd (process_job self utcnow job w)))"

text \<open>
  The loop runs until the running flag is cleared from outside; the list holds the
  values of the environment for each turn that is run.
\<close>

fun start_worker ::
  "QueuedScorer \<Rightarrow> (string \<times> datetime \<times> datetime) list \<Rightarrow> world \<Rightarrow> world" where
  "start_worker self [] w = w"
| "start_worker self ((uuid4, utcnow0, utcnow) # turns) w =
     start_worker self turns (worker_iteration self uuid4 utcnow0 utcnow w)"

text \<open>
  The worlds that the program can bring about from the empty store: by submissions, by
  turns of the worker, and by the passing of time.
\<close>

inductive reachable :: "QueuedScorer \<Rightarrow> world \<Rightarrow> bool" for self :: QueuedScorer where
  initial: "reachable self empty_world"
| submitted: "reachable self w \<Longrightarrow>
     reachable self (snd (submit_job self uid uuid4 utcnow payload w))"
| worked: "reachable self w \<Longrightarrow> reachable self (worker_iteration self uuid4 utcnow0 utcnow w)"
| elapsed: "reachable self w \<Longrightarrow> reachable self (elapse t w)"

text \<open>The ids pushed to and popped from a list, in the order of the history.\<close>

fun pushed :: "string \<Rightarrow> event list \<Rightarrow> string list" where
  "pushed k [] = []"
| "pushed k (LPush k' v # es) = (if k' = k then v # pushed k es else pushed k es)"
| "pushed k (e # es) = pushed k es"

fun popped :: "string \<Rightarrow> event list \<Rightarrow> string list" where
  "popped k [] = []"
| "popped k (BRPop k' (Some v) # es) = (if k' = k then v # popped k es else popped k es)"
| "popped k (e # es) = popped k es"

section \<open>Payloads of the expected types\<close>

text \<open>
  The scoring function returns for a payload whose numeric fields are numbers (a missing
  field has a numeric default) and whose industry can be a dictionary key.
\<close>

fun is_number :: "pyval \<Rightarrow> bool" where
  "is_number (PInt i) = True"
| "is_number (PFloat f) = True"
| "is_number (PBool b) = True"
| "is_number v = False"

fun is_hashable :: "pyval \<Rightarrow> bool" where
  "is_hashable (PList xs) = False"
| "is_hashable (PDict kvs) = False"
| "is_hashable (PTuple xs) = (unhashable (PTuple xs) = None)"
| "is_hashable v = True"

definition numeric_fields :: "pydict \<Rightarrow> bool" where
  "numeric_fields bd =
     (is_number (dict_get bd ''monthly_revenue'' (PInt 0)) \<and>
      is_number (dict_get bd ''growth_rate'' (PInt 0)) \<and>
      is_number (dict_get bd ''market_size'' (PInt 0)) \<and>
      is_hashable (dict_get bd ''industry'' (PStr ''General'')) \<and>
      is_number (dict_get bd ''years_operated'' (PInt 0)))"

section \<open>Payloads that JSON reads back unchanged\<close>

fun json_native :: "pyval \<Rightarrow> bool" where
  "json_native (PTuple xs) = False"
| "json_native (PList xs) = list_all json_native xs"
| "json_native (PDict kvs) = list_all (\<lambda>kv. json_native (snd kv)) kvs"
| "json_native v = True"

definition json_native_dict :: "pydict \<Rightarrow> bool" where
  "json_native_dict kvs = list_all (\<lambda>kv. json_native (snd kv)) kvs"

section \<open>The sentences of the reasoning\<close>

definition revenue_sentences :: "string list" where
  "revenue_sentences =
     [''Strong revenue generation with healthy profitability'',
      ''Moderate revenue with decent profit margins'',
      ''Revenue needs improvement for better investment appeal'']"

definition growth_sentences :: "string list" where
  "growth_sentences =
     [''Excellent growth trajectory indicating market opportunity'',
      ''Steady growth with potential for acceleration'',
      ''Growth is limited, may need strategic improvements'']"

definition market_sentences :: "string list" where
  "market_sentences =
     [''Large addressable market with favorable industry dynamics'',
      ''Decent market size with reasonable competition'',
      ''Market opportunity may be limited'']"

definition experience_sentences :: "string list" where
  "experience_sentences =
     [''Proven track record with established operations'',
      ''Some operational experience with growth potential'',
      ''Newer operation requiring additional validation'']"

section \<open>What the store and the history hold\<close>

text \<open>
  A stored document is settled when it is a fresh \<^verbatim>\<open>pending\<close> one, or records the outcome
  of the scoring function on its own payload: the score and the reasoning, or the message
  of the exception. \<open>write_ttls\<close> lists the time-to-live of each write of a history.
\<close>

definition settled :: "job_dict \<Rightarrow> bool" where
  "settled d =
     ((d_status d = ''pending'' \<and> d_score d = None \<and> d_reasoning d = None \<and> d_error d = None)
      \<or> (d_status d = ''completed'' \<and> d_error d = None \<and>
          (case score_business (d_business_data d) of
             Inr (sc, rs) \<Rightarrow> d_score d = Some sc \<and> d_reasoning d = Some rs
           | Inl e \<Rightarrow> False))
      \<or> (d_status d = ''failed'' \<and> d_score d = None \<and> d_reasoning d = None \<and>
          (case score_business (d_business_data d) of
             Inl e \<Rightarrow> d_error d = Some (str_exc e)
           | Inr r \<Rightarrow> False)))"

fun write_ttls :: "event list \<Rightarrow> int list" where
  "write_ttls [] = []"
| "write_ttls (SetEx k ttl v # es) = ttl # write_ttls es"
| "write_ttls (e # es) = write_ttls es"

section \<open>Sample values\<close>

definition sample_business :: pydict where
  "sample_business =
     [(''monthly_revenue'', PInt 25000),
      (''monthly_profit'', PInt 15000),
      (''growth_rate'', PInt 25),
      (''market_size'', PInt 50000000),
      (''industry'', PStr ''SaaS''),
      (''years_operated'', PInt 3)]"

definition lowest_business :: pydict where
  "lowest_business = [(''growth_rate'', PInt (- 1)), (''industry'', PStr ''Service'')]"

definition highest_business :: pydict where
  "highest_business =
     [(''monthly_revenue'', PInt 50000),
      (''growth_rate'', PInt 30),
      (''market_size'', PInt 10000000),
      (''industry'', PStr ''SaaS''),
      (''years_operated'', PInt 5)]"

definition broken_business :: pydict where
  "broken_business = [(''name'', PStr ''Shop''), (''monthly_revenue'', PStr ''a lot'')]"

definition tuple_business :: pydict where
  "tuple_business =
     [(''name'', PStr ''Shop''), (''tags'', PTuple [PStr ''retail'', PStr ''online''])]"

definition default_scorer :: QueuedScorer where
  "default_scorer =
     \<lparr>queue_name = ''business_scoring'', max_concurrent_jobs = 5, job_timeout = 300,
      retry_attempts = 3, ai_enabled = False, worker_id = ''worker-1''\<rparr>"

definition sample_time :: datetime where
  "sample_time =
     Abs_datetime \<lparr>year = 2024, month = 2, day = 29, hour = 13, minute = 5, second = 9,
                   microsecond = 250\<rparr>"

definition sample_job :: "string \<Rightarrow> pydict \<Rightarrow> ScoringJob" where
  "sample_job jid payload =
     \<lparr>job_id = jid, business_data = payload, status = ''pending'', score = None,
      reasoning = None, error = None, created_at = Some sample_time, completed_at = None\<rparr>"

definition unstamped_job :: ScoringJob where
  "unstamped_job =
     \<lparr>job_id = ''job-a'', business_data = sample_business, status = ''pending'', score = None,
      reasoning = None, error = None, created_at = None, completed_at = None\<rparr>"

section \<open>Properties\<close>

subsection \<open>Scoring\<close>

lemma bind_exc_Inr_iff:
  "bind_exc m f = Inr y \<longleftrightarrow> (\<exists>x. m = Inr x \<and> f x = Inr y)"
  by (cases m) (simp_all add: bind_exc_def)

lemma score_revenue_range:
  assumes "score_revenue revenue profit = Inr v"
  shows "v \<in> {20, 40, 60, 80, 95}"
  using assms unfolding score_revenue_def
  by (auto simp: bind_exc_Inr_iff split: if_splits)

lemma score_growth_range:
  assumes "score_growth g = Inr v"
  shows "v \<in> {10, 30, 60, 80, 95}"
  using assms unfolding score_growth_def
  by (auto simp: bind_exc_Inr_iff split: if_splits)

lemma score_experience_range:
  assumes "score_experience y = Inr v"
  shows "v \<in> {30, 50, 70, 85}"
  using assms unfolding score_experience_def
  by (auto simp: bind_exc_Inr_iff split: if_splits)

lemma multiplier_get_range:
  assumes "multiplier_get industry = Inr m"
  shows "9 / 10 \<le> m \<and> m \<le> 12 / 10"
proof (cases industry)
  case (PStr s)
  with assms show ?thesis
    by (auto simp: industry_multipliers_def split: if_splits)
next
  case (PTuple xs)
  with assms show ?thesis
    by (auto split: option.splits)
qed (use assms in auto)

lemma score_market_range:
  assumes "score_market market_size industry = Inr v"
  shows "27 \<le> v \<and> v \<le> 108"
proof -
  from assms obtain m where m: "multiplier_get industry = Inr m"
    and v: "v \<in> {30 * m, 50 * m, 70 * m, 90 * m}"
    unfolding score_market_def
    by (auto simp: bind_exc_Inr_iff split: if_splits)
  from multiplier_get_range [OF m] v show ?thesis by auto
qed

lemma py_round2_bounds:
  assumes "of_int lo \<le> x * 100" and "x * 100 \<le> of_int hi"
  shows "of_int lo / 100 \<le> py_round2 x \<and> py_round2 x \<le> of_int hi / 100"
proof -
  define f where "f = \<lfloor>x * 100\<rfloor>"
  have lo: "lo \<le> f" using assms(1) by (simp add: f_def le_floor_iff)
  have hi: "f \<le> hi" using assms(2) by (simp add: f_def floor_le_iff)
  have frac: "x * 100 - of_int f = 0" if "f = hi"
  proof -
    have "of_int f \<le> x * 100" by (simp add: f_def)
    with assms(2) that show ?thesis by simp
  qed
  have up: "f + 1 \<le> hi" if "0 < x * 100 - of_int f"
    using that frac hi by (cases "f = hi") auto
  have "of_int lo \<le> py_round2 x * 100 \<and> py_round2 x * 100 \<le> of_int hi"
    unfolding py_round2_def Let_def f_def [symmetric]
    using lo hi up by (auto simp: of_int_le_iff [where 'a = rat, symmetric] simp del: of_int_le_iff of_int_add)
  then show ?thesis by (simp add: divide_le_eq le_divide_eq)
qed

lemma py_lt_number: "is_number v \<Longrightarrow> \<exists>b. py_lt v n = Inr b"
  by (cases v) simp_all

lemma py_lt_Inr_number: "py_lt v n = Inr b \<Longrightarrow> is_number v"
  by (cases v) simp_all

lemma score_revenue_total: "is_number v \<Longrightarrow> \<exists>r. score_revenue v p = Inr r"
  by (cases v) (simp_all add: score_revenue_def bind_exc_def)

lemma score_growth_total: "is_number v \<Longrightarrow> \<exists>r. score_growth v = Inr r"
  by (cases v) (simp_all add: score_growth_def bind_exc_def)

lemma score_experience_total: "is_number v \<Longrightarrow> \<exists>r. score_experience v = Inr r"
  by (cases v) (simp_all add: score_experience_def bind_exc_def)

lemma multiplier_get_total: "is_hashable i \<Longrightarrow> \<exists>m. multiplier_get i = Inr m"
  by (cases i) simp_all

lemma score_market_total:
  assumes "is_number v" and "is_hashable i"
  shows "\<exists>r. score_market v i = Inr r"
proof -
  from multiplier_get_total [OF assms(2)] obtain m where "multiplier_get i = Inr m" ..
  with assms(1) show ?thesis
    by (cases v) (simp_all add: score_market_def bind_exc_def)
qed

lemma score_business_total:
  assumes "numeric_fields bd"
  shows "\<exists>sc rs. score_business bd = Inr (sc, rs)"
proof -
  from assms obtain r where r: "score_revenue (dict_get bd ''monthly_revenue'' (PInt 0))
      (dict_get bd ''monthly_profit'' (PInt 0)) = Inr r"
    using score_revenue_total unfolding numeric_fields_def by blast
  from assms obtain g where g: "score_growth (dict_get bd ''growth_rate'' (PInt 0)) = Inr g"
    using score_growth_total unfolding numeric_fields_def by blast
  from assms obtain m where m: "score_market (dict_get bd ''market_size'' (PInt 0))
      (dict_get bd ''industry'' (PStr ''General'')) = Inr m"
    using score_market_total unfolding numeric_fields_def by blast
  from assms obtain x where x: "score_experience (dict_get bd ''years_operated'' (PInt 0)) = Inr x"
    using score_experience_total unfolding numeric_fields_def by blast
  show ?thesis
    by (simp add: score_business_def Let_def bind_exc_def r g m x)
qed

lemma score_business_Inr:
  assumes "score_business bd = Inr (sc, rs)"
  obtains r g m x where
    "score_revenue (dict_get bd ''monthly_revenue'' (PInt 0))
       (dict_get bd ''monthly_profit'' (PInt 0)) = Inr r"
    "score_growth (dict_get bd ''growth_rate'' (PInt 0)) = Inr g"
    "score_market (dict_get bd ''market_size'' (PInt 0))
       (dict_get bd ''industry'' (PStr ''General'')) = Inr m"
    "score_experience (dict_get bd ''years_operated'' (PInt 0)) = Inr x"
    "sc = py_round2 (r * (3 / 10) + g * (25 / 100) + m * (25 / 100) + x * (2 / 10))"
    "rs = generate_reasoning r g m x bd"
  using assms unfolding score_business_def Let_def
  by (auto simp: bind_exc_Inr_iff)

lemma overall_score_bounds:
  assumes "score_business bd = Inr (sc, rs)"
  shows "85 / 4 \<le> sc \<and> sc \<le> 385 / 4"
proof -
  from assms obtain r g m x where
    r: "score_revenue (dict_get bd ''monthly_revenue'' (PInt 0))
       (dict_get bd ''monthly_profit'' (PInt 0)) = Inr r" and
    g: "score_growth (dict_get bd ''growth_rate'' (PInt 0)) = Inr g" and
    m: "score_market (dict_get bd ''market_size'' (PInt 0))
       (dict_get bd ''industry'' (PStr ''General'')) = Inr m" and
    x: "score_experience (dict_get bd ''years_operated'' (PInt 0)) = Inr x" and
    sc: "sc = py_round2 (r * (3 / 10) + g * (25 / 100) + m * (25 / 100) + x * (2 / 10))"
    by (rule score_business_Inr)
  have rb: "20 \<le> r \<and> r \<le> 95" using score_revenue_range [OF r] by auto
  have gb: "10 \<le> g \<and> g \<le> 95" using score_growth_range [OF g] by auto
  have mb: "27 \<le> m \<and> m \<le> 108" using score_market_range [OF m] .
  have xb: "30 \<le> x \<and> x \<le> 85" using score_experience_range [OF x] by auto
  define t where "t = r * (3 / 10) + g * (25 / 100) + m * (25 / 100) + x * (2 / 10)"
  have "of_int 2125 \<le> t * 100" and "t * 100 \<le> of_int 9625"
    using rb gb mb xb by (simp_all add: t_def algebra_simps)
  from py_round2_bounds [OF this] show ?thesis
    by (simp add: sc t_def)
qed

lemma generate_reasoning_shape:
  "length (generate_reasoning r g m x bd) = 4"
  by (simp add: generate_reasoning_def Let_def)

lemma sample_score: "score_business sample_business =
  Inr (85, [''Strong revenue generation with healthy profitability'',
            ''Excellent growth trajectory indicating market opportunity'',
            ''Large addressable market with favorable industry dynamics'',
            ''Some operational experience with growth potential''])"
  by (simp add: score_business_def sample_business_def dict_get_def Let_def
      score_revenue_def score_growth_def score_market_def score_experience_def bind_exc_def
      industry_multipliers_def generate_reasoning_def py_round2_def)

subsection \<open>Timestamps and the dictionary form\<close>

lemma of_char_digit_char: "d < 10 \<Longrightarrow> (of_char (digit_char d) :: nat) = 48 + d"
  by (simp add: digit_char_def)

lemma is_digit_digit_char: "d < 10 \<Longrightarrow> is_digit (digit_char d)"
  by (simp add: is_digit_def of_char_digit_char)

lemma digit_char_neq_Z: "d < 10 \<Longrightarrow> digit_char d \<noteq> CHR ''Z''"
proof
  assume "d < 10" and "digit_char d = CHR ''Z''"
  then have "(of_char (digit_char d) :: nat) = of_char CHR ''Z''" by simp
  with \<open>d < 10\<close> show False by (simp add: of_char_digit_char)
qed

lemma length_pad [simp]: "length (pad k n) = k"
  by (induction k arbitrary: n) simp_all

lemma pad_digits: "list_all is_digit (pad k n)"
  by (induction k arbitrary: n) (simp_all add: is_digit_digit_char)

lemma pad_no_Z: "CHR ''Z'' \<notin> set (pad k n)"
proof (induction k arbitrary: n)
  case 0
  show ?case by simp
next
  case (Suc k)
  have "digit_char (n mod 10) \<noteq> CHR ''Z''" by (rule digit_char_neq_Z) simp
  with Suc show ?case by auto
qed

lemma pad_value: "foldl (\<lambda>a c. 10 * a + (of_char c - 48)) 0 (pad k n) = n mod 10 ^ k"
proof (induction k arbitrary: n)
  case 0
  show ?case by simp
next
  case (Suc k)
  have "n div 10 mod 10 ^ k * 10 + n mod 10 = n mod (10 * 10 ^ k)"
    by (simp add: mod_mult2_eq mult.commute)
  with Suc show ?case
    by (simp add: of_char_digit_char mult.commute)
qed

lemma digits_pad: "n < 10 ^ k \<Longrightarrow> digits k (pad k n @ rest) = Some (n, rest)"
  by (simp add: digits_def pad_digits pad_value)

lemma expect_Cons [simp]: "expect c (c # s) = Some s"
  by (simp add: expect_def)

lemma parse_iso_fields:
  assumes "valid_fields f"
  shows "parse_iso (pad 4 (year f) @ ''-'' @ pad 2 (month f) @ ''-'' @ pad 2 (day f) @ ''T''
         @ pad 2 (hour f) @ '':'' @ pad 2 (minute f) @ '':'' @ pad 2 (second f)
         @ (if microsecond f \<noteq> 0 then ''.'' @ pad 6 (microsecond f) else [])) = Some f"
proof -
  have y: "year f < 10 ^ 4" and mo: "month f < 10 ^ 2" and d: "day f < 10 ^ 2"
    and h: "hour f < 10 ^ 2" and mi: "minute f < 10 ^ 2" and se: "second f < 10 ^ 2"
    and us: "microsecond f < 10 ^ 6"
    using assms by (auto simp: valid_fields_def days_in_month_def split: if_splits)
  have us': "digits 6 (pad 6 (microsecond f)) = Some (microsecond f, [])"
    using digits_pad [OF us, of "[]"] by simp
  have se0: "digits 2 (pad 2 (second f)) = Some (second f, [])"
    using digits_pad [OF se, of "[]"] by simp
  show ?thesis
    unfolding parse_iso_def
    by (simp add: digits_pad [OF y] digits_pad [OF mo] digits_pad [OF d] digits_pad [OF h]
        digits_pad [OF mi] digits_pad [OF se] us' se0 del: pad.simps)
qed

lemma fromisoformat_isoformat: "fromisoformat (isoformat d) = Inr d"
proof -
  have v: "valid_fields (Rep_datetime d)" using Rep_datetime [of d] by simp
  show ?thesis
    unfolding fromisoformat_def isoformat_def Let_def
    by (simp only: parse_iso_fields [OF v] option.case v if_True Rep_datetime_inverse)
qed

lemma replace_Z_id: "CHR ''Z'' \<notin> set s \<Longrightarrow> replace_Z s = s"
  by (induction s) (auto simp: replace_Z_def)

lemma isoformat_no_Z: "CHR ''Z'' \<notin> set (isoformat d)"
  by (simp add: isoformat_def Let_def pad_no_Z del: pad.simps)

lemma isoformat_nonempty: "isoformat d \<noteq> []"
proof
  assume "isoformat d = []"
  then have "length (isoformat d) = 0" by simp
  then show False by (simp add: isoformat_def Let_def del: pad.simps)
qed

lemma parse_stamp_isoformat:
  "parse_stamp (case t of None \<Rightarrow> None | Some x \<Rightarrow> Some (isoformat x)) = Inr t"
  by (cases t)
     (simp_all add: parse_stamp_def isoformat_nonempty replace_Z_id isoformat_no_Z
        fromisoformat_isoformat bind_exc_def)

lemma from_dict_to_dict:
  "from_dict uuid4 utcnow (to_dict job) = Inr (post_init uuid4 utcnow job)"
  by (cases job) (simp add: from_dict_def to_dict_def parse_stamp_isoformat bind_exc_def)

lemma post_init_id: "job_id job \<noteq> [] \<Longrightarrow> created_at job \<noteq> None \<Longrightarrow> post_init uuid4 utcnow job = job"
  by (simp add: post_init_def)

subsection \<open>The effects of the operations\<close>

lemma json_value_idem [simp]: "json_value (json_value v) = json_value v"
  by (induction v rule: json_value.induct) (auto simp: map_idI)

lemma json_native_value: "json_native v \<Longrightarrow> json_value v = v"
  by (induction v rule: json_value.induct) (auto simp: list_all_iff intro!: map_idI)

lemma json_dict_idem [simp]: "json_dict (json_dict kvs) = json_dict kvs"
  by (auto simp: json_dict_def)

lemma json_native_dict_id: "json_native_dict kvs \<Longrightarrow> json_dict kvs = kvs"
  by (auto simp: json_dict_def json_native_dict_def list_all_iff json_native_value
      intro!: map_idI)

lemma json_loads_dumps [simp]:
  "json_loads (json_dumps d) = d\<lparr>d_business_data := json_dict (d_business_data d)\<rparr>"
  by (simp add: json_dumps_def)

lemma to_dict_json:
  "(to_dict job)\<lparr>d_business_data := json_dict (business_data job)\<rparr>
     = to_dict (job\<lparr>business_data := json_dict (business_data job)\<rparr>)"
  by (simp add: to_dict_def)

lemma post_init_fields [simp]:
  "business_data (post_init u n j) = business_data j"
  "status (post_init u n j) = status j"
  "score (post_init u n j) = score j"
  "reasoning (post_init u n j) = reasoning j"
  "error (post_init u n j) = error j"
  "completed_at (post_init u n j) = completed_at j"
  by (simp_all add: post_init_def Let_def)

lemma to_dict_fields [simp]:
  "d_id (to_dict j) = job_id j"
  "d_business_data (to_dict j) = business_data j"
  "d_status (to_dict j) = status j"
  "d_score (to_dict j) = score j"
  "d_reasoning (to_dict j) = reasoning j"
  "d_error (to_dict j) = error j"
  by (simp_all add: to_dict_def)

lemma from_dict_fields:
  assumes "from_dict u n d = Inr j"
  shows "business_data j = d_business_data d" "status j = d_status d" "score j = d_score d"
    "reasoning j = d_reasoning d" "error j = d_error d"
  using assms by (auto simp: from_dict_def bind_exc_Inr_iff)

lemma update_job_kv:
  "kv (update_job self job w) =
     (kv w)(job_key (job_id job) \<mapsto> (job_timeout self * 2, json_dumps (to_dict job)))"
  by (simp add: update_job_def setex_def)

lemma update_job_lists [simp]: "redis_lists (update_job self job w) = redis_lists w"
  by (simp add: update_job_def setex_def)

lemma update_job_trace:
  "trace (update_job self job w) =
     trace w @ [SetEx (job_key (job_id job)) (job_timeout self * 2) (json_dumps (to_dict job))]"
  by (simp add: update_job_def setex_def)

lemma submit_job_unfold:
  "submit_job self uid u n payload w =
     (let job = post_init u n
                  \<lparr>job_id = uid, business_data = payload, status = ''pending'',
                   score = None, reasoning = None, error = None,
                   created_at = None, completed_at = None\<rparr>
      in (job_id job,
          w\<lparr>kv := (kv w)(job_key (job_id job) \<mapsto> (job_timeout self * 2, json_dumps (to_dict job))),
            redis_lists := (redis_lists w)(queue_key self := job_id job # redis_lists w (queue_key self)),
            trace := trace w @ [SetEx (job_key (job_id job)) (job_timeout self * 2)
                                  (json_dumps (to_dict job)),
                                LPush (queue_key self) (job_id job)]\<rparr>))"
  by (simp add: submit_job_def Let_def setex_def lpush_def)

lemma get_job_status_stored:
  assumes "kv w (job_key jid) = Some (ttl, json_dumps (to_dict job))"
  shows "get_job_status u n jid w
           = Inr (Some (post_init u n (job\<lparr>business_data := json_dict (business_data job)\<rparr>)))"
  using assms
  by (simp add: get_job_status_def redis_get_def to_dict_json from_dict_to_dict bind_exc_def)

lemma get_job_status_Some:
  assumes "get_job_status u n jid w = Inr (Some job)"
  obtains ttl d where "kv w (job_key jid) = Some (ttl, JsonText d)" and "from_dict u n d = Inr job"
proof -
  from assms obtain ttl v where kv: "kv w (job_key jid) = Some (ttl, v)"
    and fd: "from_dict u n (json_loads v) = Inr job"
    by (auto simp: get_job_status_def redis_get_def bind_exc_Inr_iff split: option.splits)
  obtain d where v: "v = JsonText d" by (cases v)
  from kv fd v that show ?thesis by simp
qed

lemma process_job_begin_unfold:
  "process_job_begin self job w =
     (job\<lparr>status := ''processing''\<rparr>,
      w\<lparr>kv := (kv w)(job_key (job_id job) \<mapsto>
                 (job_timeout self * 2, json_dumps (to_dict (job\<lparr>status := ''processing''\<rparr>)))),
        trace := trace w @ [SetEx (job_key (job_id job)) (job_timeout self * 2)
                              (json_dumps (to_dict (job\<lparr>status := ''processing''\<rparr>)))]\<rparr>)"
  by (simp add: process_job_begin_def Let_def update_job_def setex_def)

lemma process_job_raises:
  assumes "score_business (business_data job) = Inl e"
  shows "process_job self utcnow job w =
     (job\<lparr>status := ''failed'', error := Some (str_exc e), completed_at := Some utcnow\<rparr>,
      w\<lparr>kv := (kv w)(job_key (job_id job) \<mapsto>
                 (job_timeout self * 2,
                  json_dumps (to_dict (job\<lparr>status := ''failed'', error := Some (str_exc e),
                                          completed_at := Some utcnow\<rparr>)))),
        trace := trace w @
          [SetEx (job_key (job_id job)) (job_timeout self * 2)
             (json_dumps (to_dict (job\<lparr>status := ''processing''\<rparr>))),
           Invoke (business_data job),
           SetEx (job_key (job_id job)) (job_timeout self * 2)
             (json_dumps (to_dict (job\<lparr>status := ''failed'', error := Some (str_exc e),
                                     completed_at := Some utcnow\<rparr>)))]\<rparr>)"
  using assms
  by (simp add: process_job_def process_job_try_def process_job_begin_unfold
      update_job_def setex_def)

lemma process_job_returns:
  assumes "score_business (business_data job) = Inr (sc, rs)"
  shows "process_job self utcnow job w =
     (job\<lparr>score := Some sc, reasoning := Some rs, status := ''completed'',
          completed_at := Some utcnow\<rparr>,
      w\<lparr>kv := (kv w)(job_key (job_id job) \<mapsto>
                 (job_timeout self * 2,
                  json_dumps (to_dict (job\<lparr>score := Some sc, reasoning := Some rs,
                                          status := ''completed'', completed_at := Some utcnow\<rparr>)))),
        trace := trace w @
          [SetEx (job_key (job_id job)) (job_timeout self * 2)
             (json_dumps (to_dict (job\<lparr>status := ''processing''\<rparr>))),
           Invoke (business_data job),
           SetEx (job_key (job_id job)) (job_timeout self * 2)
             (json_dumps (to_dict (job\<lparr>score := Some sc, reasoning := Some rs,
                                     status := ''completed'', completed_at := Some utcnow\<rparr>)))]\<rparr>)"
  using assms
  by (simp add: process_job_def process_job_try_def process_job_begin_unfold
      update_job_def setex_def)

subsection \<open>The invariant of the store\<close>

lemma settled_processed:
  assumes "settled d" and "from_dict u n d = Inr job"
  shows "settled (to_dict (fst (process_job self utcnow job w)))"
proof (cases "score_business (business_data job)")
  case (Inl e)
  with assms show ?thesis
    by (auto simp: settled_def process_job_raises from_dict_fields [OF assms(2)]
        split: sum.splits)
next
  case (Inr r)
  obtain sc rs where r: "r = (sc, rs)" by (cases r)
  with Inr assms show ?thesis
    by (auto simp: settled_def process_job_returns from_dict_fields [OF assms(2)]
        split: sum.splits)
qed

lemma process_job_kv:
  "kv (snd (process_job self utcnow job w)) =
     (kv w)(job_key (job_id job) \<mapsto>
        (job_timeout self * 2, json_dumps (to_dict (fst (process_job self utcnow job w)))))"
proof (cases "score_business (business_data job)")
  case (Inl e)
  then show ?thesis by (simp add: process_job_raises)
next
  case (Inr r)
  obtain sc rs where "r = (sc, rs)" by (cases r)
  with Inr show ?thesis by (simp add: process_job_returns)
qed

lemma process_job_lists [simp]: "redis_lists (snd (process_job self utcnow job w)) = redis_lists w"
proof (cases "score_business (business_data job)")
  case (Inl e)
  then show ?thesis by (simp add: process_job_raises)
next
  case (Inr r)
  obtain sc rs where "r = (sc, rs)" by (cases r)
  with Inr show ?thesis by (simp add: process_job_returns)
qed

lemma process_job_trace:
  "trace (snd (process_job self utcnow job w)) =
     trace w @
       [SetEx (job_key (job_id job)) (job_timeout self * 2)
          (json_dumps (to_dict (job\<lparr>status := ''processing''\<rparr>))),
        Invoke (business_data job),
        SetEx (job_key (job_id job)) (job_timeout self * 2)
          (json_dumps (to_dict (fst (process_job self utcnow job w))))]"
proof (cases "score_business (business_data job)")
  case (Inl e)
  then show ?thesis by (simp add: process_job_raises)
next
  case (Inr r)
  obtain sc rs where "r = (sc, rs)" by (cases r)
  with Inr show ?thesis by (simp add: process_job_returns)
qed

lemma brpop_kv [simp]: "kv (snd (brpop k t w)) = kv w"
  by (simp add: brpop_def split: list.splits)

lemma brpop_lists: "redis_lists (snd (brpop k t w)) = (redis_lists w)(k := butlast (redis_lists w k))"
  by (auto simp: brpop_def split: list.splits)

lemma brpop_result:
  "fst (brpop k t w) = (if redis_lists w k = [] then None else Some (k, last (redis_lists w k)))"
  by (simp add: brpop_def split: list.splits)

lemma brpop_trace:
  "trace (snd (brpop k t w)) =
     trace w @ [BRPop k (if redis_lists w k = [] then None else Some (last (redis_lists w k)))]"
  by (simp add: brpop_def split: list.splits)

text \<open>What one turn of the worker does, in terms of the popped id.\<close>

lemma worker_iteration_cases:
  obtains (idle) "redis_lists w (queue_key self) = []"
      "worker_iteration self u n0 n w = snd (brpop (queue_key self) 1 w)"
    | (skipped) "redis_lists w (queue_key self) \<noteq> []"
      "worker_iteration self u n0 n w = snd (brpop (queue_key self) 1 w)"
    | (processed) job where "redis_lists w (queue_key self) \<noteq> []"
      "get_job_status u n0 (last (redis_lists w (queue_key self))) (snd (brpop (queue_key self) 1 w))
         = Inr (Some job)"
      "worker_iteration self u n0 n w
         = snd (process_job self n job (snd (brpop (queue_key self) 1 w)))"
proof (cases "redis_lists w (queue_key self) = []")
  case True
  then have "worker_iteration self u n0 n w = snd (brpop (queue_key self) 1 w)"
    by (simp add: worker_iteration_def brpop_def)
  with True show ?thesis by (rule idle)
next
  case False
  define w1 where "w1 = snd (brpop (queue_key self) 1 w)"
  define jid where "jid = last (redis_lists w (queue_key self))"
  from False have b: "brpop (queue_key self) 1 w = (Some (queue_key self, jid), w1)"
    by (simp add: w1_def jid_def brpop_def split: list.splits)
  show ?thesis
  proof (cases "get_job_status u n0 jid w1")
    case (Inl e)
    have "worker_iteration self u n0 n w = w1"
      unfolding worker_iteration_def b by (simp add: Inl)
    with False show ?thesis unfolding w1_def by (rule skipped)
  next
    case (Inr r)
    show ?thesis
    proof (cases r)
      case None
      have "worker_iteration self u n0 n w = w1"
        unfolding worker_iteration_def b by (simp add: Inr None)
      with False show ?thesis unfolding w1_def by (rule skipped)
    next
      case (Some job)
      have "worker_iteration self u n0 n w = snd (process_job self n job w1)"
        unfolding worker_iteration_def b by (simp add: Inr Some)
      with False Inr Some show ?thesis
        unfolding w1_def jid_def by (intro processed [of job]) simp_all
    qed
  qed
qed

lemma elapse_kv_Some:
  assumes "kv (elapse t w) k = Some (ttl, v)"
  shows "\<exists>ttl'. kv w k = Some (ttl', v)"
  using assms by (auto simp: elapse_def split: option.splits if_splits)

lemma process_job_business_data [simp]:
  "business_data (fst (process_job self utcnow job w)) = business_data job"
proof (cases "score_business (business_data job)")
  case (Inl e)
  then show ?thesis by (simp add: process_job_raises)
next
  case (Inr r)
  obtain sc rs where "r = (sc, rs)" by (cases r)
  with Inr show ?thesis by (simp add: process_job_returns)
qed

lemma json_dumps_normal:
  assumes "json_dict (business_data job) = business_data job"
  shows "json_dumps (to_dict job) = JsonText (to_dict job)"
  using assms by (simp add: json_dumps_def to_dict_def)

text \<open>
  Every document in a store that the program has brought about is settled, and its payload
  is as JSON reads it.
\<close>

lemma reachable_settled_json:
  assumes "reachable self w" and "kv w k = Some (ttl, JsonText d)"
  shows "settled d \<and> json_dict (d_business_data d) = d_business_data d"
  using assms
proof (induction arbitrary: k ttl d rule: reachable.induct)
  case initial
  then show ?case by (simp add: empty_world_def)
next
  case (submitted w uid uuid4 utcnow payload)
  show ?case
  proof (cases "k = job_key (fst (submit_job self uid uuid4 utcnow payload w))")
    case True
    with submitted.prems have "d = (to_dict (post_init uuid4 utcnow
                  \<lparr>job_id = uid, business_data = payload, status = ''pending'',
                   score = None, reasoning = None, error = None,
                   created_at = None, completed_at = None\<rparr>))
                  \<lparr>d_business_data := json_dict payload\<rparr>"
      by (auto simp: submit_job_unfold Let_def json_dumps_def)
    then show ?thesis by (simp add: settled_def)
  next
    case False
    with submitted.prems have "kv w k = Some (ttl, JsonText d)"
      by (simp add: submit_job_unfold Let_def)
    then show ?thesis by (rule submitted.IH)
  qed
next
  case (worked w uuid4 utcnow0 utcnow)
  show ?case
  proof (cases rule: worker_iteration_cases [of w self uuid4 utcnow0 utcnow])
    case idle
    with worked.prems have "kv w k = Some (ttl, JsonText d)" by simp
    then show ?thesis by (rule worked.IH)
  next
    case skipped
    with worked.prems have "kv w k = Some (ttl, JsonText d)" by simp
    then show ?thesis by (rule worked.IH)
  next
    case (processed job)
    let ?w1 = "snd (brpop (queue_key self) 1 w)"
    let ?job' = "fst (process_job self utcnow job ?w1)"
    from processed(2) obtain ttl0 d0 where
      kv0: "kv ?w1 (job_key (last (redis_lists w (queue_key self)))) = Some (ttl0, JsonText d0)"
      and fd: "from_dict uuid4 utcnow0 d0 = Inr job"
      by (rule get_job_status_Some)
    from kv0 have d0: "settled d0 \<and> json_dict (d_business_data d0) = d_business_data d0"
      by (simp add: worked.IH)
    then have ok: "settled (to_dict ?job')"
      using fd settled_processed by blast
    from d0 have nj: "json_dict (business_data ?job') = business_data ?job'"
      by (simp add: from_dict_fields [OF fd])
    show ?thesis
    proof (cases "k = job_key (job_id job)")
      case True
      with worked.prems processed(3) have "d = to_dict ?job'"
        by (simp add: process_job_kv json_dumps_normal [OF nj])
      with ok nj show ?thesis by simp
    next
      case False
      with worked.prems processed(3) have "kv w k = Some (ttl, JsonText d)"
        by (simp add: process_job_kv)
      then show ?thesis by (rule worked.IH)
    qed
  qed
next
  case (elapsed w t)
  from elapse_kv_Some [OF elapsed.prems] obtain ttl' where "kv w k = Some (ttl', JsonText d)" ..
  then show ?case by (rule elapsed.IH)
qed

lemma reachable_settled:
  assumes "reachable self w" and "kv w k = Some (ttl, JsonText d)"
  shows "settled d"
  using reachable_settled_json [OF assms] by simp

lemma settled_exclusive:
  assumes "settled d"
  shows "(d_status d = ''completed'' \<longrightarrow> d_score d \<noteq> None \<and> d_reasoning d \<noteq> None \<and> d_error d = None)
       \<and> (d_status d = ''failed'' \<longrightarrow> d_error d \<noteq> None \<and> d_score d = None \<and> d_reasoning d = None)"
  using assms by (auto simp: settled_def split: sum.splits)

lemma process_job_status:
  "status (fst (process_job self utcnow job w)) = ''completed'' \<or>
   status (fst (process_job self utcnow job w)) = ''failed''"
proof (cases "score_business (business_data job)")
  case (Inl e)
  then show ?thesis by (simp add: process_job_raises)
next
  case (Inr r)
  obtain sc rs where "r = (sc, rs)" by (cases r)
  with Inr show ?thesis by (simp add: process_job_returns)
qed

subsection \<open>The queue and the time-to-live\<close>

lemma pushed_append [simp]: "pushed k (xs @ ys) = pushed k xs @ pushed k ys"
  by (induction k xs rule: pushed.induct) simp_all

lemma popped_append [simp]: "popped k (xs @ ys) = popped k xs @ popped k ys"
  by (induction k xs rule: popped.induct) simp_all

lemma rev_butlast_last:
  "xs \<noteq> [] \<Longrightarrow> last xs # rev (butlast xs) = rev xs"
  by (induction xs rule: rev_induct) simp_all

lemma brpop_fifo:
  assumes "pushed k (trace w) = popped k (trace w) @ rev (redis_lists w k)"
  shows "pushed k (trace (snd (brpop q t w))) =
         popped k (trace (snd (brpop q t w))) @ rev (redis_lists (snd (brpop q t w)) k)"
proof (cases "redis_lists w q = []")
  case True
  with assms show ?thesis by (simp add: brpop_trace brpop_lists)
next
  case False
  show ?thesis
  proof (cases "k = q")
    case True
    with False assms show ?thesis
      by (simp add: brpop_trace brpop_lists rev_butlast_last)
  next
    case False
    with assms show ?thesis by (simp add: brpop_trace brpop_lists)
  qed
qed

lemma process_job_fifo:
  assumes "pushed k (trace w) = popped k (trace w) @ rev (redis_lists w k)"
  shows "pushed k (trace (snd (process_job self n job w))) =
         popped k (trace (snd (process_job self n job w)))
           @ rev (redis_lists (snd (process_job self n job w)) k)"
  using assms by (simp add: process_job_trace)

lemma reachable_fifo:
  assumes "reachable self w"
  shows "pushed k (trace w) = popped k (trace w) @ rev (redis_lists w k)"
  using assms
proof (induction rule: reachable.induct)
  case initial
  show ?case by (simp add: empty_world_def)
next
  case (submitted w uid uuid4 utcnow payload)
  then show ?case by (simp add: submit_job_unfold Let_def)
next
  case (worked w uuid4 utcnow0 utcnow)
  have b: "pushed k (trace (snd (brpop (queue_key self) 1 w))) =
         popped k (trace (snd (brpop (queue_key self) 1 w)))
           @ rev (redis_lists (snd (brpop (queue_key self) 1 w)) k)"
    using worked.IH by (rule brpop_fifo)
  show ?case
  proof (cases rule: worker_iteration_cases [of w self uuid4 utcnow0 utcnow])
    case idle
    with b show ?thesis by simp
  next
    case skipped
    with b show ?thesis by simp
  next
    case (processed job)
    from process_job_fifo [OF b] processed(3) show ?thesis by simp
  qed
next
  case (elapsed w t)
  then show ?case by (simp add: elapse_def)
qed

lemma write_ttls_append [simp]: "write_ttls (xs @ ys) = write_ttls xs @ write_ttls ys"
  by (induction xs rule: write_ttls.induct) simp_all

lemma reachable_write_ttls:
  assumes "reachable self w"
  shows "\<forall>ttl \<in> set (write_ttls (trace w)). ttl = job_timeout self * 2"
  using assms
proof (induction rule: reachable.induct)
  case initial
  show ?case by (simp add: empty_world_def)
next
  case (submitted w uid uuid4 utcnow payload)
  then show ?case by (simp add: submit_job_unfold Let_def)
next
  case (worked w uuid4 utcnow0 utcnow)
  show ?case
  proof (cases rule: worker_iteration_cases [of w self uuid4 utcnow0 utcnow])
    case idle
    with worked.IH show ?thesis by (simp add: brpop_trace)
  next
    case skipped
    with worked.IH show ?thesis by (simp add: brpop_trace)
  next
    case (processed job)
    with worked.IH show ?thesis by (simp add: process_job_trace brpop_trace)
  qed
next
  case (elapsed w t)
  then show ?case by (simp add: elapse_def)
qed

lemma sample_fields_valid:
  "valid_fields \<lparr>year = 2024, month = 2, day = 29, hour = 13, minute = 5, second = 9,
                   microsecond = 250\<rparr>"
  by (simp add: valid_fields_def days_in_month_def is_leap_def)

lemma broken_score:
  "score_business broken_business =
     Inl (TypeError (sq ''<'' @ '' not supported between instances of '' @ sq ''str''
                     @ '' and '' @ sq ''int''))"
  by (simp add: score_business_def broken_business_def dict_get_def Let_def
      score_revenue_def bind_exc_def)

subsection \<open>The claims about the worker\<close>

lemma sample_job_kept [simp]: "post_init u n (sample_job (c # cs) payload) = sample_job (c # cs) payload"
  by (simp add: post_init_def sample_job_def)

lemma sample_job_loaded [simp]:
  "post_init u n ((sample_job (c # cs) payload)
       \<lparr>business_data := json_dict (business_data (sample_job (c # cs) payload))\<rparr>)
     = sample_job (c # cs) (json_dict payload)"
  by (simp add: post_init_def sample_job_def)

lemma sample_business_json [simp]: "json_dict sample_business = sample_business"
  by (simp add: json_dict_def sample_business_def)

lemma submit_sample:
  "submit_job self (c # cs) u sample_time payload w =
     (c # cs,
      w\<lparr>kv := (kv w)(job_key (c # cs) \<mapsto>
                 (job_timeout self * 2, json_dumps (to_dict (sample_job (c # cs) payload)))),
        redis_lists := (redis_lists w)(queue_key self := (c # cs) # redis_lists w (queue_key self)),
        trace := trace w @ [SetEx (job_key (c # cs)) (job_timeout self * 2)
                              (json_dumps (to_dict (sample_job (c # cs) payload))),
                            LPush (queue_key self) (c # cs)]\<rparr>)"
  by (simp add: submit_job_unfold Let_def post_init_def sample_job_def)

text \<open>
  Claim C1. When the scoring function raises an exception \<open>e\<close> on the payload of the job,
  \<^verbatim>\<open>_process_job\<close> still returns: the \<^verbatim>\<open>try\<close> suite raised \<open>e\<close>, and the job that comes back
  has status \<^verbatim>\<open>failed\<close>, the message of \<open>e\<close> as its error and the clock's time as its
  \<^verbatim>\<open>completed_at\<close>; the store holds that job under the job's key.
\<close>

theorem scoring_exception_marks_job_failed:
  assumes "score_business (business_data job) = Inl e"
    and "process_job self utcnow job w = (job', w')"
  shows "status job' = ''failed'' \<and> error job' = Some (str_exc e)
       \<and> completed_at job' = Some utcnow
       \<and> kv w' (job_key (job_id job')) = Some (job_timeout self * 2, json_dumps (to_dict job'))
       \<and> (\<exists>j1 w1. process_job_try self utcnow job w = Inl (e, j1, w1))"
proof -
  from assms have j: "job' = job\<lparr>status := ''failed'', error := Some (str_exc e),
      completed_at := Some utcnow\<rparr>"
    and w: "kv w' = (kv w)(job_key (job_id job) \<mapsto> (job_timeout self * 2, json_dumps (to_dict job')))"
    by (auto simp: process_job_raises)
  have "\<exists>j1 w1. process_job_try self utcnow job w = Inl (e, j1, w1)"
    using assms(1) by (simp add: process_job_try_def process_job_begin_unfold)
  with j w show ?thesis by simp
qed

theorem scoring_exception_marks_job_failed_witness:
  "status (fst (process_job default_scorer sample_time (sample_job ''job-a'' broken_business)
                  empty_world)) = ''failed''
   \<and> error (fst (process_job default_scorer sample_time (sample_job ''job-a'' broken_business)
                  empty_world))
       = Some (sq ''<'' @ '' not supported between instances of '' @ sq ''str''
               @ '' and '' @ sq ''int'')"
proof -
  have h: "score_business (business_data (sample_job ''job-a'' broken_business)) =
     Inl (TypeError (sq ''<'' @ '' not supported between instances of '' @ sq ''str''
                     @ '' and '' @ sq ''int''))"
    by (simp add: sample_job_def broken_score)
  have p: "process_job default_scorer sample_time (sample_job ''job-a'' broken_business) empty_world =
      (fst (process_job default_scorer sample_time (sample_job ''job-a'' broken_business) empty_world),
       snd (process_job default_scorer sample_time (sample_job ''job-a'' broken_business) empty_world))"
    by simp
  from scoring_exception_marks_job_failed [OF h p]
  show ?thesis by simp
qed

text \<open>
  The same for the jobs at rest: whatever \<^verbatim>\<open>get_job_status\<close> finds in a world the program
  has brought about is pending, completed with its results, or failed with its error.
\<close>

lemma stored_result_sets_exclusive:
  assumes "reachable self w" and "get_job_status uuid4 utcnow0 jid w = Inr (Some job)"
  shows "(status job = ''pending'' \<and> score job = None \<and> reasoning job = None \<and> error job = None)
       \<or> (status job = ''completed'' \<and> score job \<noteq> None \<and> reasoning job \<noteq> None
            \<and> error job = None)
       \<or> (status job = ''failed'' \<and> error job \<noteq> None \<and> score job = None
            \<and> reasoning job = None)"
proof -
  from assms(2) obtain ttl d where kv: "kv w (job_key jid) = Some (ttl, JsonText d)"
    and fd: "from_dict uuid4 utcnow0 d = Inr job"
    by (rule get_job_status_Some)
  from assms(1) kv have "settled d" by (rule reachable_settled)
  then show ?thesis
    by (auto simp: settled_def from_dict_fields [OF fd] split: sum.splits)
qed

text \<open>
  Claim C2. Take any job that \<^verbatim>\<open>get_job_status\<close> loads from a world the program has brought
  about. After \<^verbatim>\<open>_process_job\<close> it is either \<^verbatim>\<open>completed\<close>, with score and reasoning set and
  no error, or \<^verbatim>\<open>failed\<close>, with the error set and neither score nor reasoning: exactly one
  of the two result sets is populated, never both.
\<close>

theorem result_sets_exclusive:
  assumes "reachable self w"
    and "get_job_status uuid4 utcnow0 jid w = Inr (Some job)"
    and "process_job self utcnow job w2 = (job', w')"
  shows "(status job' = ''completed'' \<and> score job' \<noteq> None \<and> reasoning job' \<noteq> None
            \<and> error job' = None)
       \<or> (status job' = ''failed'' \<and> error job' \<noteq> None \<and> score job' = None
            \<and> reasoning job' = None)"
proof -
  from assms(2) obtain ttl d where kv: "kv w (job_key jid) = Some (ttl, JsonText d)"
    and fd: "from_dict uuid4 utcnow0 d = Inr job"
    by (rule get_job_status_Some)
  from assms(1) kv have "settled d" by (rule reachable_settled)
  then have "settled (to_dict (fst (process_job self utcnow job w2)))"
    using fd by (rule settled_processed)
  with assms(3) have "settled (to_dict job')" by simp
  from settled_exclusive [OF this] process_job_status [of self utcnow job w2] assms(3)
  show ?thesis by auto
qed

theorem result_sets_exclusive_witness:
  "status (fst (process_job default_scorer sample_time (sample_job ''job-a'' sample_business)
      (snd (submit_job default_scorer ''job-a'' ''job-b'' sample_time sample_business empty_world))))
     = ''completed''
   \<and> error (fst (process_job default_scorer sample_time (sample_job ''job-a'' sample_business)
      (snd (submit_job default_scorer ''job-a'' ''job-b'' sample_time sample_business empty_world))))
     = None
   \<and> score (fst (process_job default_scorer sample_time (sample_job ''job-a'' sample_business)
      (snd (submit_job default_scorer ''job-a'' ''job-b'' sample_time sample_business empty_world))))
     \<noteq> None"
proof -
  let ?w = "snd (submit_job default_scorer ''job-a'' ''job-b'' sample_time sample_business empty_world)"
  have r: "reachable default_scorer ?w"
    by (intro reachable.submitted reachable.initial)
  have "kv ?w (job_key ''job-a'')
          = Some (600, json_dumps (to_dict (sample_job ''job-a'' sample_business)))"
    by (simp add: submit_sample default_scorer_def)
  from get_job_status_stored [OF this, of "''job-b''" sample_time]
  have g: "get_job_status ''job-b'' sample_time ''job-a'' ?w
             = Inr (Some (sample_job ''job-a'' sample_business))"
    by simp
  have sb: "score_business (business_data (sample_job ''job-a'' sample_business)) =
      Inr (85, [''Strong revenue generation with healthy profitability'',
                ''Excellent growth trajectory indicating market opportunity'',
                ''Large addressable market with favorable industry dynamics'',
                ''Some operational experience with growth potential''])"
    by (simp add: sample_job_def sample_score)
  have s: "status (fst (process_job default_scorer sample_time
             (sample_job ''job-a'' sample_business) ?w)) = ''completed''"
    by (simp add: process_job_returns [OF sb])
  have p: "process_job default_scorer sample_time (sample_job ''job-a'' sample_business) ?w =
      (fst (process_job default_scorer sample_time (sample_job ''job-a'' sample_business) ?w),
       snd (process_job default_scorer sample_time (sample_job ''job-a'' sample_business) ?w))"
    by simp
  from result_sets_exclusive [OF r g p] s
  show ?thesis by auto
qed

lemma worker_iteration_processed:
  assumes "redis_lists w (queue_key self) \<noteq> []"
    and "get_job_status u n0 (last (redis_lists w (queue_key self)))
           (snd (brpop (queue_key self) 1 w)) = Inr (Some job)"
  shows "worker_iteration self u n0 n w
           = snd (process_job self n job (snd (brpop (queue_key self) 1 w)))"
proof -
  define w1 where "w1 = snd (brpop (queue_key self) 1 w)"
  define jid where "jid = last (redis_lists w (queue_key self))"
  from assms(1) have b: "brpop (queue_key self) 1 w = (Some (queue_key self, jid), w1)"
    by (simp add: w1_def jid_def brpop_def split: list.splits)
  from assms(2) have g: "get_job_status u n0 jid w1 = Inr (Some job)"
    by (simp add: w1_def jid_def)
  show ?thesis
    unfolding worker_iteration_def b w1_def [symmetric] by (simp add: g)
qed

text \<open>
  Claim C3. The first part of \<^verbatim>\<open>_process_job\<close> ends with the job written to the store in
  status \<^verbatim>\<open>processing\<close>, and that write is all it adds to the history. In the history of
  the whole of \<^verbatim>\<open>_process_job\<close> the call of the scoring function comes right after it, then
  the last write; until then the keys stay as the first write left them. A process that
  dies inside the scoring function therefore leaves the stored job \<^verbatim>\<open>processing\<close>.
\<close>

theorem processing_persisted_before_scoring:
  assumes "process_job_begin self job w = (job1, w1)"
  shows "status job1 = ''processing''
       \<and> kv w1 (job_key (job_id job)) = Some (job_timeout self * 2, json_dumps (to_dict job1))
       \<and> (\<exists>j. get_job_status uuid4 utcnow0 (job_id job) w1 = Inr (Some j)
                \<and> status j = ''processing'')
       \<and> trace w1 = trace w @ [SetEx (job_key (job_id job)) (job_timeout self * 2)
                                  (json_dumps (to_dict job1))]
       \<and> trace (snd (process_job self utcnow job w)) =
           trace w1 @ [Invoke (business_data job),
                       SetEx (job_key (job_id job)) (job_timeout self * 2)
                         (json_dumps (to_dict (fst (process_job self utcnow job w))))]
       \<and> (case process_job_try self utcnow job w of
             Inl (e, j, w2) \<Rightarrow> kv w2 = kv w1
           | Inr (j, w2) \<Rightarrow> kv w2 = kv w1)"
proof -
  from assms have j: "job1 = job\<lparr>status := ''processing''\<rparr>"
    and w: "w1 = w\<lparr>kv := (kv w)(job_key (job_id job) \<mapsto>
                 (job_timeout self * 2, json_dumps (to_dict (job\<lparr>status := ''processing''\<rparr>)))),
        trace := trace w @ [SetEx (job_key (job_id job)) (job_timeout self * 2)
                              (json_dumps (to_dict (job\<lparr>status := ''processing''\<rparr>)))]\<rparr>"
    by (auto simp: process_job_begin_unfold)
  have kv: "kv w1 (job_key (job_id job)) = Some (job_timeout self * 2, json_dumps (to_dict job1))"
    by (simp add: j w)
  from get_job_status_stored [OF kv, of uuid4 utcnow0]
  have g: "\<exists>j. get_job_status uuid4 utcnow0 (job_id job) w1 = Inr (Some j)
                \<and> status j = ''processing''"
    by (simp add: j)
  have t: "case process_job_try self utcnow job w of
             Inl (e, j, w2) \<Rightarrow> kv w2 = kv w1
           | Inr (j, w2) \<Rightarrow> kv w2 = kv w1"
    by (auto simp: process_job_try_def assms Let_def split: sum.splits prod.splits)
  from kv g t show ?thesis
    by (simp add: process_job_trace) (simp add: j w)
qed

theorem processing_persisted_before_scoring_witness:
  "\<exists>j. get_job_status ''job-b'' sample_time ''job-a''
          (snd (process_job_begin default_scorer (sample_job ''job-a'' sample_business) empty_world))
        = Inr (Some j) \<and> status j = ''processing''"
proof -
  have p: "process_job_begin default_scorer (sample_job ''job-a'' sample_business) empty_world =
      (fst (process_job_begin default_scorer (sample_job ''job-a'' sample_business) empty_world),
       snd (process_job_begin default_scorer (sample_job ''job-a'' sample_business) empty_world))"
    by simp
  from processing_persisted_before_scoring [OF p, of "''job-b''" sample_time]
  show ?thesis by (simp add: sample_job_def)
qed

text \<open>
  Claim C4. In every world the program can bring about, the ids pushed to the queue are the
  ids popped so far followed by the ids still waiting, oldest first. So the \<open>i\<close>-th id
  popped is the \<open>i\<close>-th id pushed: of two ids, the one enqueued first is dequeued first.
  On an empty queue \<^verbatim>\<open>brpop\<close> returns \<^verbatim>\<open>None\<close>, and the turn of the worker changes no key.
\<close>

theorem queue_is_fifo:
  assumes "reachable self w"
  shows "pushed (queue_key self) (trace w) =
           popped (queue_key self) (trace w) @ rev (redis_lists w (queue_key self))
       \<and> (\<forall>i. i < length (popped (queue_key self) (trace w)) \<longrightarrow>
              popped (queue_key self) (trace w) ! i = pushed (queue_key self) (trace w) ! i)
       \<and> (redis_lists w (queue_key self) = [] \<longrightarrow>
              fst (brpop (queue_key self) 1 w) = None
            \<and> kv (worker_iteration self uuid4 utcnow0 utcnow w) = kv w)"
proof -
  have eq: "pushed (queue_key self) (trace w) =
           popped (queue_key self) (trace w) @ rev (redis_lists w (queue_key self))"
    using assms by (rule reachable_fifo)
  have idle: "kv (worker_iteration self uuid4 utcnow0 utcnow w) = kv w"
    if "redis_lists w (queue_key self) = []"
    using that by (simp add: worker_iteration_def brpop_def)
  from eq idle show ?thesis
    by (simp add: nth_append brpop_result)
qed

theorem queue_is_fifo_witness:
  "popped (queue_key default_scorer)
     (trace (worker_iteration default_scorer ''job-c'' sample_time sample_time
        (snd (submit_job default_scorer ''job-b'' ''job-c'' sample_time lowest_business
          (snd (submit_job default_scorer ''job-a'' ''job-c'' sample_time sample_business
             empty_world)))))) = [''job-a'']
   \<and> pushed (queue_key default_scorer)
     (trace (worker_iteration default_scorer ''job-c'' sample_time sample_time
        (snd (submit_job default_scorer ''job-b'' ''job-c'' sample_time lowest_business
          (snd (submit_job default_scorer ''job-a'' ''job-c'' sample_time sample_business
             empty_world)))))) = [''job-a'', ''job-b'']"
proof -
  let ?w1 = "snd (submit_job default_scorer ''job-a'' ''job-c'' sample_time sample_business
             empty_world)"
  let ?w2 = "snd (submit_job default_scorer ''job-b'' ''job-c'' sample_time lowest_business ?w1)"
  let ?w3 = "worker_iteration default_scorer ''job-c'' sample_time sample_time ?w2"
  have r: "reachable default_scorer ?w3"
    by (intro reachable.worked reachable.submitted reachable.initial)
  have l2: "redis_lists ?w2 (queue_key default_scorer) = [''job-b'', ''job-a'']"
    by (simp add: submit_sample empty_world_def)
  have t2: "pushed (queue_key default_scorer) (trace ?w2) = [''job-a'', ''job-b'']"
    by (simp add: submit_sample empty_world_def)
  have "redis_lists ?w3 (queue_key default_scorer) = [''job-b'']
      \<and> pushed (queue_key default_scorer) (trace ?w3) = [''job-a'', ''job-b'']"
  proof (cases rule: worker_iteration_cases [of ?w2 default_scorer "''job-c''" sample_time sample_time])
    case idle
    with l2 show ?thesis by simp
  next
    case skipped
    with l2 t2 show ?thesis by (simp add: brpop_lists brpop_trace)
  next
    case (processed job)
    with l2 t2 show ?thesis by (simp add: brpop_lists brpop_trace process_job_trace)
  qed
  with queue_is_fifo [OF r, of "''job-c''" sample_time sample_time]
  show ?thesis by simp
qed

text \<open>
  Claim C5, amended. With a positive \<^verbatim>\<open>job_timeout\<close>, after \<^verbatim>\<open>submit_job\<close> the call of
  \<^verbatim>\<open>get_job_status\<close> on the returned id finds a job whose status is \<^verbatim>\<open>pending\<close> and whose
  \<^verbatim>\<open>business_data\<close> is the payload as JSON reads it back; that is the submitted payload
  itself whenever the payload holds JSON-native values only. As the claim stands it fails:
  a tuple in the payload comes back as a list.
\<close>

theorem submit_then_status_pending:
  assumes "0 < job_timeout self"
    and "submit_job self uid uuid4 utcnow payload w = (jid, w')"
  shows "\<exists>job. get_job_status uuid4' utcnow' jid w' = Inr (Some job)
            \<and> status job = ''pending''
            \<and> business_data job = json_dict payload
            \<and> (json_native_dict payload \<longrightarrow> business_data job = payload)"
proof -
  define job where "job = post_init uuid4 utcnow
                  \<lparr>job_id = uid, business_data = payload, status = ''pending'',
                   score = None, reasoning = None, error = None,
                   created_at = None, completed_at = None\<rparr>"
  from assms(2) have jid: "jid = job_id job"
    and kv: "kv w' (job_key jid) = Some (job_timeout self * 2, json_dumps (to_dict job))"
    by (auto simp: submit_job_unfold Let_def job_def)
  from get_job_status_stored [OF kv, of uuid4' utcnow']
  show ?thesis by (simp add: job_def json_native_dict_id)
qed

theorem submit_then_status_pending_witness:
  "\<exists>job. get_job_status ''job-b'' sample_time ''job-a''
            (snd (submit_job default_scorer ''job-a'' ''job-c'' sample_time sample_business
                    empty_world)) = Inr (Some job)
         \<and> status job = ''pending'' \<and> business_data job = sample_business"
proof -
  have t: "0 < job_timeout default_scorer"
    by (simp add: default_scorer_def)
  have s: "submit_job default_scorer ''job-a'' ''job-c'' sample_time sample_business empty_world =
      (''job-a'', snd (submit_job default_scorer ''job-a'' ''job-c'' sample_time sample_business
                         empty_world))"
    by (simp add: submit_sample)
  have n: "json_native_dict sample_business"
    by (simp add: json_native_dict_def sample_business_def)
  from submit_then_status_pending [OF t s, of "''job-b''" sample_time] n
  show ?thesis by auto
qed

theorem submit_then_status_pending_counterexample:
  "\<not> (\<exists>job. get_job_status ''job-b'' sample_time
              (fst (submit_job default_scorer ''job-a'' ''job-c'' sample_time tuple_business
                      empty_world))
              (snd (submit_job default_scorer ''job-a'' ''job-c'' sample_time tuple_business
                      empty_world)) = Inr (Some job)
            \<and> status job = ''pending'' \<and> business_data job = tuple_business)"
proof -
  let ?w = "snd (submit_job default_scorer ''job-a'' ''job-c'' sample_time tuple_business
                   empty_world)"
  have "kv ?w (job_key ''job-a'')
          = Some (600, json_dumps (to_dict (sample_job ''job-a'' tuple_business)))"
    by (simp add: submit_sample default_scorer_def)
  from get_job_status_stored [OF this, of "''job-b''" sample_time]
  have g: "get_job_status ''job-b'' sample_time ''job-a'' ?w
             = Inr (Some (sample_job ''job-a'' (json_dict tuple_business)))"
    by simp
  have "json_dict tuple_business \<noteq> tuple_business"
    by (simp add: json_dict_def tuple_business_def)
  with g show ?thesis
    by (simp add: submit_sample sample_job_def)
qed

text \<open>
  Claim C6, amended. A job whose id is not empty and whose \<^verbatim>\<open>created_at\<close> is set, as
  \<^verbatim>\<open>__post_init__\<close> leaves every job that is constructed, comes back equal from \<^verbatim>\<open>from_dict\<close>
  after \<^verbatim>\<open>to_dict\<close>, whatever its status, score, reasoning, error and \<^verbatim>\<open>completed_at\<close>. As
  the claim stands it fails: for a job without \<^verbatim>\<open>created_at\<close>, \<^verbatim>\<open>from_dict\<close> stamps the
  clock's time (and for an empty id it draws a new one).
\<close>

theorem job_round_trip:
  assumes "job_id job \<noteq> []" and "created_at job \<noteq> None"
  shows "from_dict uuid4 utcnow (to_dict job) = Inr job"
  using assms by (simp add: from_dict_to_dict post_init_id)

theorem job_round_trip_witness:
  "from_dict ''job-b'' sample_time
     (to_dict ((sample_job ''job-a'' sample_business)
        \<lparr>status := ''completed'', score := Some 85, completed_at := Some sample_time\<rparr>))
   = Inr ((sample_job ''job-a'' sample_business)
        \<lparr>status := ''completed'', score := Some 85, completed_at := Some sample_time\<rparr>)"
  by (rule job_round_trip) (simp_all add: sample_job_def)

theorem job_round_trip_counterexample:
  "from_dict ''job-b'' sample_time (to_dict unstamped_job) \<noteq> Inr unstamped_job"
proof
  assume "from_dict ''job-b'' sample_time (to_dict unstamped_job) = Inr unstamped_job"
  then have "post_init ''job-b'' sample_time unstamped_job = unstamped_job"
    by (simp add: from_dict_to_dict)
  then have "created_at (post_init ''job-b'' sample_time unstamped_job) = created_at unstamped_job"
    by simp
  then show False by (simp add: post_init_def unstamped_job_def)
qed

text \<open>
  Claim C7. With a positive \<^verbatim>\<open>job_timeout\<close> (Redis refuses any other), every write to the
  store in every run of the program carries a time-to-live of \<^verbatim>\<open>job_timeout * 2\<close>. After
  \<^verbatim>\<open>submit_job\<close> and after \<^verbatim>\<open>_update_job\<close> the key has exactly that time-to-live, whatever
  was left of it before; \<^verbatim>\<open>_process_job\<close> writes twice, each time with it.
\<close>

theorem every_write_has_double_timeout:
  assumes "0 < job_timeout self" and "reachable self w"
  shows "(\<forall>ttl \<in> set (write_ttls (trace w)). ttl = job_timeout self * 2)
       \<and> (\<exists>v. kv (snd (submit_job self uid uuid4 utcnow payload w0))
                  (job_key (fst (submit_job self uid uuid4 utcnow payload w0)))
                = Some (job_timeout self * 2, v))
       \<and> kv (update_job self job w0) (job_key (job_id job))
           = Some (job_timeout self * 2, json_dumps (to_dict job))
       \<and> write_ttls (trace (update_job self job w0))
           = write_ttls (trace w0) @ [job_timeout self * 2]
       \<and> write_ttls (trace (snd (process_job self utcnow job w0)))
           = write_ttls (trace w0) @ [job_timeout self * 2, job_timeout self * 2]"
  using reachable_write_ttls [OF assms(2)]
  by (simp add: submit_job_unfold Let_def update_job_kv update_job_trace process_job_trace)

theorem every_write_has_double_timeout_witness:
  "write_ttls (trace (worker_iteration default_scorer ''job-c'' sample_time sample_time
     (snd (submit_job default_scorer ''job-a'' ''job-c'' sample_time sample_business
        empty_world)))) = [600, 600, 600]"
proof -
  let ?w1 = "snd (submit_job default_scorer ''job-a'' ''job-c'' sample_time sample_business
             empty_world)"
  let ?w2 = "worker_iteration default_scorer ''job-c'' sample_time sample_time ?w1"
  have r: "reachable default_scorer ?w2"
    by (intro reachable.worked reachable.submitted reachable.initial)
  have l: "redis_lists ?w1 (queue_key default_scorer) = [''job-a'']"
    by (simp add: submit_sample empty_world_def)
  have kv: "kv (snd (brpop (queue_key default_scorer) 1 ?w1)) (job_key ''job-a'')
          = Some (600, json_dumps (to_dict (sample_job ''job-a'' sample_business)))"
    by (simp add: submit_sample default_scorer_def)
  have g: "get_job_status ''job-c'' sample_time ''job-a'' (snd (brpop (queue_key default_scorer) 1 ?w1))
      = Inr (Some (sample_job ''job-a'' sample_business))"
    using get_job_status_stored [OF kv, of "''job-c''" sample_time] by simp
  have "?w2 = snd (process_job default_scorer sample_time (sample_job ''job-a'' sample_business)
                    (snd (brpop (queue_key default_scorer) 1 ?w1)))"
    by (rule worker_iteration_processed) (simp_all add: l g)
  then have v: "write_ttls (trace ?w2) = [600, 600, 600]"
    by (simp add: process_job_trace brpop_trace submit_sample empty_world_def default_scorer_def)
  have t: "0 < job_timeout default_scorer"
    by (simp add: default_scorer_def)
  from every_write_has_double_timeout [OF t r] v show ?thesis by simp
qed

subsection \<open>The claims about the scoring function\<close>

text \<open>
  Claim C8, amended. For the payload of the scenario the revenue score is 80, the growth
  score is 80 (a growth rate of 25 is below 30), the market score is 108 (90 times the
  multiplier 1.2 of SaaS, the market being no smaller than 10 million) and the experience
  score is 70; the overall score is their weighted sum rounded to two places, 85. The
  growth score 95 and the market score 90 of the claim are not what the code computes.
\<close>

theorem sample_scenario_scores:
  "score_revenue (dict_get sample_business ''monthly_revenue'' (PInt 0))
     (dict_get sample_business ''monthly_profit'' (PInt 0)) = Inr 80
   \<and> score_growth (dict_get sample_business ''growth_rate'' (PInt 0)) = Inr 80
   \<and> score_market (dict_get sample_business ''market_size'' (PInt 0))
        (dict_get sample_business ''industry'' (PStr ''General'')) = Inr 108
   \<and> score_experience (dict_get sample_business ''years_operated'' (PInt 0)) = Inr 70
   \<and> (\<exists>rs. score_business sample_business =
          Inr (py_round2 (80 * (3 / 10) + 80 * (25 / 100) + 108 * (25 / 100) + 70 * (2 / 10)), rs))
   \<and> py_round2 (80 * (3 / 10) + 80 * (25 / 100) + 108 * (25 / 100) + 70 * (2 / 10)) = 85"
proof -
  have r: "py_round2 (80 * (3 / 10) + 80 * (25 / 100) + 108 * (25 / 100) + 70 * (2 / 10)) = 85"
    by (simp add: py_round2_def Let_def)
  have s: "score_revenue (dict_get sample_business ''monthly_revenue'' (PInt 0))
     (dict_get sample_business ''monthly_profit'' (PInt 0)) = Inr 80"
    by (simp add: sample_business_def dict_get_def score_revenue_def bind_exc_def)
  have g: "score_growth (dict_get sample_business ''growth_rate'' (PInt 0)) = Inr 80"
    by (simp add: sample_business_def dict_get_def score_growth_def bind_exc_def)
  have m: "score_market (dict_get sample_business ''market_size'' (PInt 0))
        (dict_get sample_business ''industry'' (PStr ''General'')) = Inr 108"
    by (simp add: sample_business_def dict_get_def score_market_def bind_exc_def
        industry_multipliers_def)
  have x: "score_experience (dict_get sample_business ''years_operated'' (PInt 0)) = Inr 70"
    by (simp add: sample_business_def dict_get_def score_experience_def bind_exc_def)
  from r s g m x show ?thesis by (simp add: sample_score)
qed

theorem sample_scenario_scores_witness:
  "\<exists>rs. score_business sample_business = Inr (85, rs)"
  using sample_scenario_scores by auto

theorem sample_scenario_scores_counterexample:
  "\<not> (score_growth (dict_get sample_business ''growth_rate'' (PInt 0)) = Inr 95
      \<and> score_market (dict_get sample_business ''market_size'' (PInt 0))
           (dict_get sample_business ''industry'' (PStr ''General'')) = Inr 90)"
  by (simp add: sample_business_def dict_get_def score_growth_def bind_exc_def)

text \<open>
  Claim C9. Whenever the scoring function returns, its overall score lies between 21.25
  and 96.25. It returns for every payload whose four numeric fields are numbers (or absent)
  and whose industry can be hashed. Both bounds are attained.
\<close>

theorem overall_score_range:
  "(numeric_fields bd \<longrightarrow> (\<exists>sc rs. score_business bd = Inr (sc, rs)))
   \<and> (\<forall>sc rs. score_business bd = Inr (sc, rs) \<longrightarrow> 2125 / 100 \<le> sc \<and> sc \<le> 9625 / 100)
   \<and> (\<exists>rs. score_business lowest_business = Inr (2125 / 100, rs))
   \<and> (\<exists>rs. score_business highest_business = Inr (9625 / 100, rs))"
proof -
  have lo: "\<exists>rs. score_business lowest_business = Inr (2125 / 100, rs)"
    by (simp add: score_business_def lowest_business_def dict_get_def Let_def
        score_revenue_def score_growth_def score_market_def score_experience_def bind_exc_def
        industry_multipliers_def py_round2_def)
  have hi: "\<exists>rs. score_business highest_business = Inr (9625 / 100, rs)"
    by (simp add: score_business_def highest_business_def dict_get_def Let_def
        score_revenue_def score_growth_def score_market_def score_experience_def bind_exc_def
        industry_multipliers_def py_round2_def)
  have b: "2125 / 100 \<le> sc \<and> sc \<le> 9625 / 100" if "score_business bd = Inr (sc, rs)" for sc rs
    using overall_score_bounds [OF that] by simp
  from lo hi b score_business_total [of bd] show ?thesis by blast
qed

theorem overall_score_range_witness:
  "numeric_fields sample_business
   \<and> (\<exists>sc rs. score_business sample_business = Inr (sc, rs) \<and> 2125 / 100 \<le> sc \<and> sc \<le> 9625 / 100)"
proof -
  have n: "numeric_fields sample_business"
    by (simp add: numeric_fields_def sample_business_def dict_get_def)
  with overall_score_range [of sample_business] show ?thesis by blast
qed

text \<open>
  Claim C10. The reasoning has exactly four sentences: one of the three for revenue, then
  one of the three for growth, then one for the market, then one for experience. This holds
  for \<^verbatim>\<open>_generate_reasoning\<close> on any four scores, and so for every result of the scoring
  function.
\<close>

theorem reasoning_has_four_sentences:
  "(\<exists>a b c d. generate_reasoning r g m x bd = [a, b, c, d]
       \<and> a \<in> set revenue_sentences \<and> b \<in> set growth_sentences
       \<and> c \<in> set market_sentences \<and> d \<in> set experience_sentences)
   \<and> (\<forall>sc rs. score_business bd = Inr (sc, rs) \<longrightarrow>
        length rs = 4 \<and> rs ! 0 \<in> set revenue_sentences \<and> rs ! 1 \<in> set growth_sentences
        \<and> rs ! 2 \<in> set market_sentences \<and> rs ! 3 \<in> set experience_sentences)"
proof -
  have shape: "\<exists>a b c d. generate_reasoning r g m x bd = [a, b, c, d]
       \<and> a \<in> set revenue_sentences \<and> b \<in> set growth_sentences
       \<and> c \<in> set market_sentences \<and> d \<in> set experience_sentences" for r g m x bd
    by (simp add: generate_reasoning_def Let_def revenue_sentences_def growth_sentences_def
        market_sentences_def experience_sentences_def)
  have "length rs = 4 \<and> rs ! 0 \<in> set revenue_sentences \<and> rs ! 1 \<in> set growth_sentences
        \<and> rs ! 2 \<in> set market_sentences \<and> rs ! 3 \<in> set experience_sentences"
    if "score_business bd = Inr (sc, rs)" for sc rs
  proof -
    from that obtain r g m x where "rs = generate_reasoning r g m x bd"
      by (rule score_business_Inr)
    with shape [of r g m x bd] show ?thesis by auto
  qed
  with shape show ?thesis by blast
qed

theorem reasoning_has_four_sentences_witness:
  "\<exists>sc rs. score_business sample_business = Inr (sc, rs) \<and> length rs = 4
     \<and> rs ! 0 \<in> set revenue_sentences \<and> rs ! 3 \<in> set experience_sentences"
proof -
  from sample_score obtain sc rs where s: "score_business sample_business = Inr (sc, rs)"
    by blast
  with reasoning_has_four_sentences [of 0 0 0 0 sample_business] show ?thesis by blast
qed

end
